theory Spec2Isabelle
  imports Main "HOL-Library.Sublist"
begin

section \<open>The etcd backup controller (pkg/controllers/management/etcdbackup)\<close>

text \<open>
  A shallow embedding of \<^verbatim>\<open>etcdbackup.go\<close>. Structs are records, nil-able pointers are
  options, Go errors are values of the type \<open>error\<close>. Every call that leaves the package
  (Object Store, Snapshot Engine, blob store, logger, sleep) is recorded, in order, in a
  history of events; a function with effects takes the history so far and returns the
  extended history besides its result. What the outside world answers is given by an
  environment: a record of functions of the history so far, so an answer, and the reading
  of the clock, may depend on everything that happened before. The hooks \<^verbatim>\<open>Create\<close>,
  \<^verbatim>\<open>Remove\<close> and \<^verbatim>\<open>Updated\<close> and the sweep of one cluster, \<^verbatim>\<open>doClusterBackupSync\<close>, are
  embedded with everything they call; \<^verbatim>\<open>Register\<close> and the ticker loop
  \<^verbatim>\<open>clusterBackupSync\<close>, which runs the sweep for every listed cluster, are not.
\<close>

subsection \<open>Errors\<close>

text \<open>
  \<open>Error m\<close> is any error value with message \<open>m\<close> (\<^verbatim>\<open>fmt.Errorf\<close>, or an error of a
  collaborator); \<open>ErrWaitTimeout\<close> is \<^verbatim>\<open>wait.ErrWaitTimeout\<close>. \<open>NilPointerPanic\<close> is not
  a Go error but the run-time panic of dereferencing a nil pointer, kept as an outcome of
  its own.
\<close>

datatype error = Error string | ErrWaitTimeout | NilPointerPanic

fun errorString :: "error \<Rightarrow> string" where
  "errorString (Error m) = m"
| "errorString ErrWaitTimeout = ''timed out waiting for the condition''"
| "errorString NilPointerPanic = ''runtime error: invalid memory address or nil pointer dereference''"

subsection \<open>Time\<close>

text \<open>
  A \<^verbatim>\<open>time.Duration\<close> is a signed 64-bit count of nanoseconds: arithmetic on it wraps
  around. A \<^verbatim>\<open>time.Time\<close> is an instant, here the number of nanoseconds since the zero
  time \<^verbatim>\<open>Time{}\<close>. Go's \<^verbatim>\<open>int\<close> is taken to be 64 bits wide (amd64, arm64).
\<close>

definition wrap64 :: "int \<Rightarrow> int" where
  "wrap64 x = (x + 2 ^ 63) mod 2 ^ 64 - 2 ^ 63"

definition maxDuration :: int where
  "maxDuration = 2 ^ 63 - 1"

definition minDuration :: int where
  "minDuration = - (2 ^ 63)"

definition Millisecond :: int where
  "Millisecond = 1000000"

definition Second :: int where
  "Second = 1000000000"

definition Hour :: int where
  "Hour = 3600000000000"

text \<open>\<^verbatim>\<open>t.Sub(u)\<close>: the difference of two instants, saturated at the ends of the Duration range.\<close>

definition Sub :: "int \<Rightarrow> int \<Rightarrow> int" where
  "Sub t u = (let d = t - u in
     if maxDuration < d then maxDuration else if d < minDuration then minDuration else d)"


subsection \<open>Data model\<close>

record S3BackupConfig =
  AccessKey :: string
  SecretKey :: string
  BucketName :: string
  Region :: string
  Endpoint :: string
  CustomCA :: string
  Folder :: string

record BackupConfig =
  Enabled :: "bool option"
  IntervalHours :: int
  Retention :: int
  S3BackupConfig :: "S3BackupConfig option"
  SafeTimestamp :: bool

text \<open>One entry of \<^verbatim>\<open>Status.Conditions\<close>, of a backup or of a cluster.\<close>

record Condition =
  Type :: string
  Status :: string
  LastUpdateTime :: string
  Reason :: string
  Message :: string

record OwnerReference =
  orName :: string
  orUID :: string
  orAPIVersion :: string
  orKind :: string
  orController :: "bool option"

record EtcdBackupSpec =
  ClusterID :: string
  Manual :: bool
  Filename :: string
  BackupConfig :: BackupConfig

record EtcdBackup =
  Name :: string
  Namespace :: string
  GenerateName :: string
  OwnerReferences :: "OwnerReference list"
  Spec :: EtcdBackupSpec
  Conditions :: "Condition list"

text \<open>
  Of a cluster's spec only \<^verbatim>\<open>RancherKubernetesEngineConfig\<close> is read, and of that only
  \<^verbatim>\<open>Services.Etcd.BackupConfig\<close>; both are pointers.
\<close>

record RancherKubernetesEngineConfig =
  EtcdBackupConfig :: "BackupConfig option"

record ClusterSpec =
  RKEConfig :: "RancherKubernetesEngineConfig option"

record Cluster =
  cName :: string
  cUID :: string
  cAPIVersion :: string
  cKind :: string
  cDeletionTimestamp :: "string option"
  cSpec :: ClusterSpec
  cConditions :: "Condition list"

definition compressedExtension :: string where
  "compressedExtension = ''zip''"

definition s3Endpoint :: string where
  "s3Endpoint = ''s3.amazonaws.com''"

definition defaultTransportTimeout :: int where
  "defaultTransportTimeout = 30"

subsection \<open>The remote blob-store client\<close>

datatype Credentials = NewIAM string | NewStatic string string string

datatype BucketLookupType = BucketLookupAuto | BucketLookupDNS

record minio_Options =
  Creds :: Credentials
  oRegion :: string
  Secure :: bool
  BucketLookup :: BucketLookupType

text \<open>The HTTP transport: the dial timeout and keep-alive set on it, and its root CAs.\<close>

record Transport =
  DialTimeout :: int
  KeepAlive :: int
  RootCAs :: "string option"

text \<open>
  A \<^verbatim>\<open>minio.Client\<close> is known by what it was constructed with, and by the custom transport
  set on it, if any.
\<close>

record minio_Client =
  clEndpoint :: string
  clOptions :: minio_Options
  clTransport :: "Transport option"

subsection \<open>Events and the environment\<close>

datatype level = Debug | Info | Warn | ErrorLevel

datatype event =
    EvClusterGet string
  | EvKontainerDriverGet
  | EvBackupUpdate EtcdBackup
  | EvBackupCreate EtcdBackup
  | EvBackupDelete string string
  | EvBackupList string
  | EvETCDSave string string
  | EvETCDRemoveSnapshot string string
  | EvMinioNew string minio_Options
  | EvBucketExists string
  | EvRemoveObject string string
  | EvSleep int
  | EvLog level string

text \<open>
  The collaborators. Each function of the history is asked with the history before its
  own call. \<open>e_now\<close> is \<^verbatim>\<open>time.Now()\<close>, \<open>e_format\<close> is \<^verbatim>\<open>Time.Format(time.RFC3339)\<close>,
  \<open>e_parse\<close> is \<^verbatim>\<open>time.Parse(time.RFC3339, s)\<close> (\<open>None\<close> when it returns an error).
  \<open>e_GetBackupFilename\<close> and \<open>e_GetBackupFilenameFromURL\<close> are the two helpers of the
  package \<^verbatim>\<open>clusterprovisioner\<close> that the controller calls. The Object Store's
  \<^verbatim>\<open>Update\<close> returns an object beside its error and the controller hands that object on;
  the object \<^verbatim>\<open>Create\<close> returns beside an error is never looked at.
\<close>

record env =
  e_now :: "event list \<Rightarrow> int"
  e_format :: "int \<Rightarrow> string"
  e_parse :: "string \<Rightarrow> int option"
  e_clusterGet :: "event list \<Rightarrow> string \<Rightarrow> error + Cluster"
  e_driverGet :: "event list \<Rightarrow> error option"
  e_backupUpdate :: "event list \<Rightarrow> EtcdBackup \<Rightarrow> EtcdBackup \<times> error option"
  e_backupCreate :: "event list \<Rightarrow> EtcdBackup \<Rightarrow> error + EtcdBackup"
  e_backupDelete :: "event list \<Rightarrow> string \<Rightarrow> string \<Rightarrow> error option"
  e_backupList :: "event list \<Rightarrow> string \<Rightarrow> error + EtcdBackup list"
  e_ETCDSave :: "event list \<Rightarrow> string \<Rightarrow> ClusterSpec \<Rightarrow> string \<Rightarrow> error option"
  e_ETCDRemoveSnapshot :: "event list \<Rightarrow> string \<Rightarrow> ClusterSpec \<Rightarrow> string \<Rightarrow> error option"
  e_GetBackupFilename :: "EtcdBackup \<Rightarrow> string"
  e_GetBackupFilenameFromURL :: "string \<Rightarrow> error + string"
  e_minioNew :: "event list \<Rightarrow> string \<Rightarrow> minio_Options \<Rightarrow> error option"
  e_BucketExists :: "event list \<Rightarrow> minio_Client \<Rightarrow> string \<Rightarrow> error + bool"
  e_RemoveObject :: "event list \<Rightarrow> minio_Client \<Rightarrow> string \<Rightarrow> string \<Rightarrow> error option"

text \<open>\<^verbatim>\<open>time.Since(t)\<close> is \<^verbatim>\<open>time.Now().Sub(t)\<close>.\<close>

definition Since :: "env \<Rightarrow> event list \<Rightarrow> int \<Rightarrow> int" where
  "Since en w t = Sub (e_now en w) t"

text \<open>\<^verbatim>\<open>time.Now().Format(time.RFC3339)\<close>\<close>

definition nowRFC3339 :: "env \<Rightarrow> event list \<Rightarrow> string" where
  "nowRFC3339 en w = e_format en (e_now en w)"

subsection \<open>Conditions\<close>

text \<open>
  The condition names are constants of the API types package; the helpers that read and
  write a condition slot belong to a library outside this package. A slot is found by its
  \<open>Type\<close>; an object without the slot reads as the empty status.
\<close>

definition BackupConditionCreated :: string where
  "BackupConditionCreated = ''Created''"

definition BackupConditionCompleted :: string where
  "BackupConditionCompleted = ''Completed''"


text \<open>
  Modelled from the spec: the lookup of a condition slot by name is not under src/. Section 3
  gives every condition a state, a reason, a message and a last-transition timestamp.
\<close>

definition findCond :: "Condition list \<Rightarrow> string \<Rightarrow> Condition option" where
  "findCond cs n = find (\<lambda>c. Type c = n) cs"

definition getStatus :: "Condition list \<Rightarrow> string \<Rightarrow> string" where
  "getStatus cs n = (case findCond cs n of None \<Rightarrow> [] | Some c \<Rightarrow> Status c)"

definition getTS :: "Condition list \<Rightarrow> string \<Rightarrow> string" where
  "getTS cs n = (case findCond cs n of None \<Rightarrow> [] | Some c \<Rightarrow> LastUpdateTime c)"

fun updCond :: "(Condition \<Rightarrow> Condition) \<Rightarrow> string \<Rightarrow> Condition list \<Rightarrow> Condition list" where
  "updCond f n [] = []"
| "updCond f n (c # cs) = (if Type c = n then f c # cs else c # updCond f n cs)"

definition findOrCreateCond :: "Condition list \<Rightarrow> string \<Rightarrow> Condition list" where
  "findOrCreateCond cs n =
     (if findCond cs n = None
      then cs @ [\<lparr>Type = n, Status = [], LastUpdateTime = [], Reason = [], Message = []\<rparr>]
      else cs)"

text \<open>
  Modelled from the spec: setting a condition's state is not under src/. The slot is created
  when missing; the timestamp \<open>ts\<close> (the current time) is stored when the state changes.
\<close>

definition setStatus :: "string \<Rightarrow> string \<Rightarrow> string \<Rightarrow> Condition list \<Rightarrow> Condition list" where
  "setStatus ts n st cs =
     updCond (\<lambda>c. if Status c = st then c else c\<lparr>Status := st, LastUpdateTime := ts\<rparr>) n
       (findOrCreateCond cs n)"

text \<open>Modelled from the spec: \<^verbatim>\<open>Cond.IsTrue\<close> is not under src/; the state of the slot is True.\<close>

definition IsTrue :: "string \<Rightarrow> EtcdBackup \<Rightarrow> bool" where
  "IsTrue n b = (getStatus (Conditions b) n = ''True'')"

text \<open>Modelled from the spec: \<^verbatim>\<open>Cond.IsFalse\<close> is not under src/; the state of the slot is False.\<close>

definition IsFalse :: "string \<Rightarrow> EtcdBackup \<Rightarrow> bool" where
  "IsFalse n b = (getStatus (Conditions b) n = ''False'')"


text \<open>Modelled from the spec: \<^verbatim>\<open>Cond.True\<close> is not under src/; it sets the state to True.\<close>

definition CondTrue :: "env \<Rightarrow> event list \<Rightarrow> string \<Rightarrow> EtcdBackup \<Rightarrow> EtcdBackup" where
  "CondTrue en w n b = b\<lparr>Conditions := setStatus (nowRFC3339 en w) n ''True'' (Conditions b)\<rparr>"

text \<open>Modelled from the spec: \<^verbatim>\<open>Cond.False\<close> is not under src/; it sets the state to False.\<close>

definition CondFalse :: "env \<Rightarrow> event list \<Rightarrow> string \<Rightarrow> EtcdBackup \<Rightarrow> EtcdBackup" where
  "CondFalse en w n b = b\<lparr>Conditions := setStatus (nowRFC3339 en w) n ''False'' (Conditions b)\<rparr>"

text \<open>Modelled from the spec: \<^verbatim>\<open>Cond.Unknown\<close> is not under src/; it sets the state to Unknown.\<close>

definition Unknown :: "env \<Rightarrow> event list \<Rightarrow> string \<Rightarrow> EtcdBackup \<Rightarrow> EtcdBackup" where
  "Unknown en w n b = b\<lparr>Conditions := setStatus (nowRFC3339 en w) n ''Unknown'' (Conditions b)\<rparr>"


text \<open>
  Modelled from the spec: \<^verbatim>\<open>Cond.GetLastUpdated\<close> is not under src/; it reads the slot's
  timestamp (the spec's last-transition time), empty when there is no slot.
\<close>

definition GetLastUpdated :: "string \<Rightarrow> EtcdBackup \<Rightarrow> string" where
  "GetLastUpdated n b = getTS (Conditions b) n"

text \<open>
  Modelled from the spec: \<^verbatim>\<open>Cond.ReasonAndMessageFromError\<close> is not under src/; section 4.4
  has the reason and the message of the slot derived from the error.
\<close>

definition ReasonAndMessageFromError :: "string \<Rightarrow> EtcdBackup \<Rightarrow> error \<Rightarrow> EtcdBackup" where
  "ReasonAndMessageFromError n b e =
     b\<lparr>Conditions := updCond (\<lambda>c. c\<lparr>Reason := ''Error'', Message := errorString e\<rparr>) n
          (findOrCreateCond (Conditions b) n)\<rparr>"

text \<open>
  Modelled from the spec: \<^verbatim>\<open>Cond.Do\<close> is not under src/. By sections 3 and 4.4 the condition
  is Unknown while the operation is in flight, True once it has succeeded, and False, with
  reason and message from the error, once it has failed; the error is handed on. The
  operation \<open>f\<close> is a closure over the object, which it sees as \<open>Do\<close> has left it.
\<close>

definition Do :: "string \<Rightarrow> env \<Rightarrow> EtcdBackup \<Rightarrow>
    (EtcdBackup \<Rightarrow> event list \<Rightarrow> (EtcdBackup \<times> error option) \<times> event list) \<Rightarrow>
    event list \<Rightarrow> (EtcdBackup \<times> error option) \<times> event list" where
  "Do n en obj f w =
     (case f (Unknown en w n obj) w of
        ((newObj, err), w1) \<Rightarrow>
          (case err of
             Some e \<Rightarrow> ((ReasonAndMessageFromError n (CondFalse en w1 n newObj) e, Some e), w1)
           | None \<Rightarrow> ((CondTrue en w1 n newObj, None), w1)))"

subsection \<open>The backoff executor\<close>

record Backoff =
  Duration :: int
  Factor :: int
  Jitter :: int
  Steps :: int

definition getBackoff :: Backoff where
  "getBackoff = \<lparr>Duration = 1000 * Millisecond, Factor = 2, Jitter = 0, Steps = 5\<rparr>"

text \<open>
  Modelled from the spec: \<^verbatim>\<open>wait.ExponentialBackoff\<close> is not under src/. By section 4.1 the
  operation is tried at most \<open>Steps\<close> times; after a failed attempt that is not the last one
  the task sleeps for the current delay, which starts at \<open>Duration\<close> and is multiplied by
  \<open>Factor\<close> after each sleep (the jitter is zero here and plays no part). The operation
  is a condition function: it answers done or not done, or an error that ends the loop.
  A failed attempt of the controller's operations is an answer of not done, so when the
  attempts are used up the loop has only its own time-out error to report. \<open>v\<close> holds the
  variables that the closure captures and assigns.
\<close>

fun backoffLoop :: "nat \<Rightarrow> int \<Rightarrow> int \<Rightarrow>
    ('v \<Rightarrow> event list \<Rightarrow> ((bool \<times> error option) \<times> 'v) \<times> event list) \<Rightarrow>
    'v \<Rightarrow> event list \<Rightarrow> (error option \<times> 'v) \<times> event list" where
  "backoffLoop 0 d f condition v w = ((Some ErrWaitTimeout, v), w)"
| "backoffLoop (Suc n) d f condition v w =
     (case condition v w of
        (((ok, err), v1), w1) \<Rightarrow>
          if err \<noteq> None \<or> ok then ((err, v1), w1)
          else if n = 0 then ((Some ErrWaitTimeout, v1), w1)
          else backoffLoop n (d * f) f condition v1 (w1 @ [EvSleep d]))"

definition ExponentialBackoff :: "Backoff \<Rightarrow>
    ('v \<Rightarrow> event list \<Rightarrow> ((bool \<times> error option) \<times> 'v) \<times> event list) \<Rightarrow>
    'v \<Rightarrow> event list \<Rightarrow> (error option \<times> 'v) \<times> event list" where
  "ExponentialBackoff backoff condition v w =
     backoffLoop (nat (Steps backoff)) (Duration backoff) (Factor backoff) condition v w"

subsection \<open>Eligibility, due time and expiry\<close>

definition isBackupSet :: "RancherKubernetesEngineConfig option \<Rightarrow> bool" where
  "isBackupSet rkeConfig =
     (case rkeConfig of None \<Rightarrow> False | Some r \<Rightarrow> EtcdBackupConfig r \<noteq> None)"


text \<open>
  \<^verbatim>\<open>cluster.Spec.RancherKubernetesEngineConfig.Services.Etcd.BackupConfig\<close>: \<open>None\<close> when
  a pointer on the way is nil, where the dereference panics.
\<close>

definition clusterBackupConfig :: "Cluster \<Rightarrow> BackupConfig option" where
  "clusterBackupConfig cluster =
     (case RKEConfig (cSpec cluster) of None \<Rightarrow> None | Some r \<Rightarrow> EtcdBackupConfig r)"


text \<open>A time-stamp that does not parse gives the zero time: the error of the parser is dropped.\<close>

definition getBackupCompletedTime :: "env \<Rightarrow> EtcdBackup \<Rightarrow> int" where
  "getBackupCompletedTime en obj =
     (case e_parse en (GetLastUpdated BackupConditionCompleted obj) of None \<Rightarrow> 0 | Some t \<Rightarrow> t)"

text \<open>
  The loop reads the clock once for each backup; nothing happens in between, so every
  reading is the clock's answer at the same history.
\<close>

definition getExpiredBackups :: "env \<Rightarrow> event list \<Rightarrow> int \<Rightarrow> int \<Rightarrow> EtcdBackup list \<Rightarrow> EtcdBackup list" where
  "getExpiredBackups en w retention intervalHours backups =
     (let toKeepDuration = wrap64 (wrap64 (retention * intervalHours) * Hour) in
      filter (\<lambda>backup. toKeepDuration < Since en w (getBackupCompletedTime en backup)) backups)"

subsection \<open>Naming\<close>

text \<open>\<^verbatim>\<open>strings.ReplaceAll(s, ":", "-")\<close>\<close>

definition replaceColons :: "string \<Rightarrow> string" where
  "replaceColons s = map (\<lambda>c. if c = CHR '':'' then CHR ''-'' else c) s"

text \<open>
  The local variable \<open>filename\<close> of \<^verbatim>\<open>generateBackupFilename\<close>; \<open>ts\<close> is
  \<^verbatim>\<open>time.Now().Format(time.RFC3339)\<close>.
\<close>

definition localFilename :: "string \<Rightarrow> string \<Rightarrow> BackupConfig \<Rightarrow> string" where
  "localFilename ts snapshotName backupConfig =
     (let filename = snapshotName @ ''_'' @ ts @ ''.'' @ compressedExtension in
      if SafeTimestamp backupConfig then replaceColons filename else filename)"

definition generateBackupFilename :: "string \<Rightarrow> string \<Rightarrow> BackupConfig option \<Rightarrow> string" where
  "generateBackupFilename ts snapshotName backupConfig =
     (case backupConfig of
        None \<Rightarrow> []
      | Some bc \<Rightarrow>
          (let filename = localFilename ts snapshotName bc in
           case S3BackupConfig bc of
             Some s3 \<Rightarrow>
               if length (Folder s3) \<noteq> 0
               then ''https://'' @ Endpoint s3 @ ''/'' @ BucketName s3 @ ''/'' @ Folder s3 @ ''/'' @ filename
               else ''https://'' @ Endpoint s3 @ ''/'' @ BucketName s3 @ ''/'' @ filename
           | None \<Rightarrow> filename))"


subsection \<open>The blob-store client\<close>

text \<open>\<^verbatim>\<open>strings.Contains\<close>\<close>

fun strings_Contains :: "string \<Rightarrow> string \<Rightarrow> bool" where
  "strings_Contains [] substr = (substr = [])"
| "strings_Contains (c # cs) substr = (prefix substr (c # cs) \<or> strings_Contains cs substr)"

definition getBucketLookupType :: "string \<Rightarrow> BucketLookupType" where
  "getBucketLookupType endpoint =
     (if endpoint = [] then BucketLookupAuto
      else if strings_Contains endpoint ''aliyun'' then BucketLookupDNS
      else BucketLookupAuto)"

definition getCustomCATransport :: "Transport \<Rightarrow> string \<Rightarrow> Transport" where
  "getCustomCATransport tr ca = tr\<lparr>RootCAs := Some ca\<rparr>"

definition GetS3Client :: "env \<Rightarrow> S3BackupConfig option \<Rightarrow> int \<Rightarrow> event list \<Rightarrow>
    (error + minio_Client) \<times> event list" where
  "GetS3Client en sbc timeout w =
     (case sbc of
        None \<Rightarrow> (Inl (Error (''Can'' @ [CHR 0x27] @ ''t find S3 backup target configuration'')), w)
      | Some s \<Rightarrow>
          (let tr = \<lparr>DialTimeout = wrap64 (timeout * Second), KeepAlive = 30 * Second, RootCAs = None\<rparr>;
               creds = (if AccessKey s = [] \<or> SecretKey s = [] then NewIAM []
                        else NewStatic (AccessKey s) (SecretKey s) []);
               endpoint = (if AccessKey s = [] \<or> SecretKey s = []
                           then (if Endpoint s = [] then s3Endpoint else Endpoint s)
                           else Endpoint s);
               bucketLookup = getBucketLookupType endpoint;
               opts = \<lparr>Creds = creds, oRegion = Region s, Secure = True, BucketLookup = bucketLookup\<rparr>;
               w1 = w @ [EvMinioNew endpoint opts]
           in case e_minioNew en w endpoint opts of
                Some err \<Rightarrow> (Inl err, w1)
              | None \<Rightarrow>
                  (Inr \<lparr>clEndpoint = endpoint, clOptions = opts,
                        clTransport = (if CustomCA s \<noteq> [] then Some (getCustomCATransport tr (CustomCA s)) else None)\<rparr>,
                   w1)))"

subsection \<open>Saving a snapshot\<close>

definition apostrophe :: string where
  "apostrophe = [CHR 0x27]"

text \<open>
  The condition function of the save: the closure assigns the captured \<open>inErr\<close> at every
  attempt and never returns an error of its own.
\<close>

definition saveCondition :: "env \<Rightarrow> Cluster \<Rightarrow> string \<Rightarrow> error option \<Rightarrow> event list \<Rightarrow>
    ((bool \<times> error option) \<times> error option) \<times> event list" where
  "saveCondition en cluster snapshotName inErr w =
     (let w1 = w @ [EvETCDSave (cName cluster) snapshotName] in
      case e_ETCDSave en w (cName cluster) (cSpec cluster) snapshotName of
        Some e \<Rightarrow> (((False, None), Some e), w1 @ [EvLog Warn (errorString e)])
      | None \<Rightarrow> (((True, None), None), w1))"

text \<open>The function handed to \<open>Do\<close>: it returns the captured \<open>inErr\<close>, not the loop's error.\<close>

definition saveOperation :: "env \<Rightarrow> Backoff \<Rightarrow> EtcdBackup \<Rightarrow> event list \<Rightarrow>
    (EtcdBackup \<times> error option) \<times> event list" where
  "saveOperation en backoff b w =
     (let w1 = w @ [EvClusterGet (ClusterID (Spec b))] in
      case e_clusterGet en w (ClusterID (Spec b)) of
        Inl err \<Rightarrow> ((b, Some err), w1)
      | Inr cluster \<Rightarrow>
          (let snapshotName = e_GetBackupFilename en b in
           case ExponentialBackoff backoff (saveCondition en cluster snapshotName) None w1 of
             ((err, inErr), w2) \<Rightarrow> ((b, inErr), w2)))"

definition etcdSaveWithBackoff :: "env \<Rightarrow> EtcdBackup \<Rightarrow> event list \<Rightarrow>
    (EtcdBackup \<times> error option) \<times> event list" where
  "etcdSaveWithBackoff en b w =
     (let backoff = getBackoff;
          w1 = w @ [EvKontainerDriverGet]
      in case e_driverGet en w of
           Some err \<Rightarrow> ((b, Some err), w1)
         | None \<Rightarrow>
             (case Do BackupConditionCompleted en b (saveOperation en backoff) w1 of
                ((bObj, err), w2) \<Rightarrow>
                  (case err of
                     Some e \<Rightarrow>
                       ((ReasonAndMessageFromError BackupConditionCompleted
                           (CondFalse en w2 BackupConditionCompleted bObj) e, Some e), w2)
                   | None \<Rightarrow> ((bObj, None), w2))))"

subsection \<open>The create hook\<close>

text \<open>Lines 99 to 108: save, persist the outcome, report a failed save.\<close>

definition saveAndUpdate :: "env \<Rightarrow> EtcdBackup \<Rightarrow> event list \<Rightarrow>
    (EtcdBackup \<times> error option) \<times> event list" where
  "saveAndUpdate en b w =
     (case etcdSaveWithBackoff en b w of
        ((bObj, saveErr), w1) \<Rightarrow>
          (let w2 = w1 @ [EvBackupUpdate bObj] in
           case e_backupUpdate en w1 bObj of
             (b1, Some err) \<Rightarrow> ((b1, Some err), w2)
           | (b1, None) \<Rightarrow>
               (case saveErr of
                  Some se \<Rightarrow>
                    ((b1, Some (Error (''[etcd-backup] failed to perform etcd backup: '' @ errorString se))), w2)
                | None \<Rightarrow> ((b1, None), w2))))"

definition Create :: "env \<Rightarrow> EtcdBackup \<Rightarrow> event list \<Rightarrow> (EtcdBackup \<times> error option) \<times> event list" where
  "Create en b w =
     (if IsFalse BackupConditionCompleted b \<or> IsTrue BackupConditionCompleted b then ((b, None), w)
      else
        (let w1 = w @ [EvClusterGet (ClusterID (Spec b))] in
         case e_clusterGet en w (ClusterID (Spec b)) of
           Inl err \<Rightarrow> ((b, Some err), w1)
         | Inr cluster \<Rightarrow>
             if \<not> isBackupSet (RKEConfig (cSpec cluster)) then
               ((b, Some (Error (''[etcd-backup] cluster doesn'' @ apostrophe @ ''t have a backup config''))), w1)
             else if \<not> IsTrue BackupConditionCreated b then
               (let b1 = b\<lparr>Spec := (Spec b)\<lparr>Filename :=
                           generateBackupFilename (nowRFC3339 en w1) (Name b) (clusterBackupConfig cluster)\<rparr>\<rparr>
                in case clusterBackupConfig cluster of
                     None \<Rightarrow> ((b1, Some NilPointerPanic), w1)
                   | Some bc \<Rightarrow>
                       (let b2 = b1\<lparr>Spec := (Spec b1)\<lparr>BackupConfig := bc\<rparr>\<rparr>;
                            b3 = CondTrue en w1 BackupConditionCreated b2;
                            b4 = Unknown en w1 BackupConditionCompleted b3;
                            w2 = w1 @ [EvBackupUpdate b4]
                        in case e_backupUpdate en w1 b4 of
                             (b5, Some err) \<Rightarrow> ((b5, Some err), w2)
                           | (b5, None) \<Rightarrow> saveAndUpdate en b5 w2))
             else saveAndUpdate en b w1))"

definition Updated :: "EtcdBackup \<Rightarrow> event list \<Rightarrow> (EtcdBackup \<times> error option) \<times> event list" where
  "Updated b w = ((b, None), w)"

subsection \<open>The removal hook\<close>

definition removeCondition :: "env \<Rightarrow> Cluster \<Rightarrow> string \<Rightarrow> unit \<Rightarrow> event list \<Rightarrow>
    ((bool \<times> error option) \<times> unit) \<times> event list" where
  "removeCondition en cluster name u w =
     (let w1 = w @ [EvETCDRemoveSnapshot (cName cluster) name] in
      case e_ETCDRemoveSnapshot en w (cName cluster) (cSpec cluster) name of
        Some inErr \<Rightarrow> (((False, None), ()), w1 @ [EvLog Warn (errorString inErr)])
      | None \<Rightarrow> (((True, None), ()), w1))"

definition etcdRemoveSnapshotWithBackoff :: "env \<Rightarrow> EtcdBackup \<Rightarrow> event list \<Rightarrow> error option \<times> event list" where
  "etcdRemoveSnapshotWithBackoff en b w =
     (let backoff = getBackoff;
          w1 = w @ [EvKontainerDriverGet]
      in case e_driverGet en w of
           Some err \<Rightarrow> (Some err, w1)
         | None \<Rightarrow>
             (let w2 = w1 @ [EvClusterGet (ClusterID (Spec b))] in
              case e_clusterGet en w1 (ClusterID (Spec b)) of
                Inl err \<Rightarrow> (Some err, w2)
              | Inr cluster \<Rightarrow>
                  (case ExponentialBackoff backoff (removeCondition en cluster (Name b)) () w2 of
                     ((err, u), w3) \<Rightarrow> (err, w3))))"

definition deleteS3Snapshot :: "env \<Rightarrow> EtcdBackup \<Rightarrow> event list \<Rightarrow> error option \<times> event list" where
  "deleteS3Snapshot en b w =
     (case S3BackupConfig (BackupConfig (Spec b)) of
        None \<Rightarrow> (Some (Error (''Can'' @ apostrophe @ ''t find S3 backup target configuration'')), w)
      | Some s3 \<Rightarrow>
          (let bucket = BucketName s3;
               folder = Folder s3
           in case GetS3Client en (Some s3) defaultTransportTimeout w of
                (Inl err, w1) \<Rightarrow> (Some err, w1)
              | (Inr s3Client, w1) \<Rightarrow>
                  (let w2 = w1 @ [EvBucketExists bucket] in
                   case e_BucketExists en w1 s3Client bucket of
                     Inl err \<Rightarrow>
                       (Some (Error (''can'' @ apostrophe @ ''t access bucket: '' @ errorString err)), w2)
                   | Inr bucketExists \<Rightarrow>
                       if \<not> bucketExists then
                         (None, w2 @ [EvLog ErrorLevel (''bucket '' @ bucket @ '' doesn'' @ apostrophe @ ''t exist'')])
                       else
                         (case (case e_GetBackupFilenameFromURL en (Filename (Spec b)) of
                                  Inr f \<Rightarrow> (f, w2)
                                | Inl err \<Rightarrow>
                                    (Name b,
                                     w2 @ [EvLog Warn (''Could not get filename from ['' @ Filename (Spec b) @
                                       '']: '' @ errorString err @ ''. Using '' @ Name b @ '' as fallback'')])) of
                            (fileName, w3) \<Rightarrow>
                              (let fileName1 = (if length folder \<noteq> 0 then folder @ ''/'' @ fileName else fileName)
                               in (e_RemoveObject en w3 s3Client bucket fileName1,
                                   w3 @ [EvRemoveObject bucket fileName1]))))))"

text \<open>
  The loop \<^verbatim>\<open>for i := 0; i < 3; i++\<close> of the hook, with the number of rounds left and the
  variable \<open>delErr\<close>.
\<close>

fun removeS3Loop :: "env \<Rightarrow> EtcdBackup \<Rightarrow> nat \<Rightarrow> error option \<Rightarrow> event list \<Rightarrow> error option \<times> event list" where
  "removeS3Loop en b 0 delErr w = (delErr, w)"
| "removeS3Loop en b (Suc n) delErr w =
     (case deleteS3Snapshot en b w of
        (None, w1) \<Rightarrow> (None, w1)
      | (Some e, w1) \<Rightarrow>
          removeS3Loop en b n (Some e)
            (w1 @ [EvLog Warn (''failed to delete backup from s3: '' @ errorString e), EvSleep (5 * Second)]))"

definition Remove :: "env \<Rightarrow> EtcdBackup \<Rightarrow> event list \<Rightarrow> (EtcdBackup \<times> error option) \<times> event list" where
  "Remove en b w =
     (let w0 = w @ [EvLog Info (''[etcd-backup] Deleting backup '' @ Name b @ '' '')] in
      case etcdRemoveSnapshotWithBackoff en b w0 of
        (err, w1) \<Rightarrow>
          (let w2 = (case err of
                       Some e \<Rightarrow> w1 @ [EvLog Warn (''giving up on deleting backup ['' @ Name b @ '']: '' @ errorString e)]
                     | None \<Rightarrow> w1)
           in if S3BackupConfig (BackupConfig (Spec b)) = None then ((b, None), w2)
              else
                (case removeS3Loop en b 3 None w2 of
                   (delErr, w3) \<Rightarrow>
                     ((b, None),
                      (case delErr of
                         Some e \<Rightarrow>
                           w3 @ [EvLog Warn (''giving up on deleting backup ['' @ Name b @ ''] from s3: '' @ errorString e)]
                       | None \<Rightarrow> w3)))))"

subsection \<open>The sweep of one cluster\<close>

definition getRecuringBackupsList :: "env \<Rightarrow> Cluster \<Rightarrow> event list \<Rightarrow> (error + EtcdBackup list) \<times> event list" where
  "getRecuringBackupsList en cluster w =
     (let w1 = w @ [EvBackupList (cName cluster)] in
      case e_backupList en w (cName cluster) of
        Inl err \<Rightarrow> (Inl err, w1)
      | Inr backups \<Rightarrow> (Inr (filter (\<lambda>backup. \<not> Manual (Spec backup)) backups), w1))"


text \<open>The loop over the expired backups: it returns at the first deletion that fails.\<close>

fun rotateLoop :: "env \<Rightarrow> EtcdBackup list \<Rightarrow> event list \<Rightarrow> error option \<times> event list" where
  "rotateLoop en [] w = (None, w)"
| "rotateLoop en (backup # rest) w =
     (if Manual (Spec backup) then rotateLoop en rest w
      else
        (let w1 = w @ [EvBackupDelete (Namespace backup) (Name backup)] in
         case e_backupDelete en w (Namespace backup) (Name backup) of
           Some err \<Rightarrow> (Some err, w1)
         | None \<Rightarrow> rotateLoop en rest w1))"

definition rotateExpiredBackups :: "env \<Rightarrow> Cluster \<Rightarrow> EtcdBackup list \<Rightarrow> event list \<Rightarrow> error option \<times> event list" where
  "rotateExpiredBackups en cluster clusterBackups w =
     (case clusterBackupConfig cluster of
        None \<Rightarrow> (Some NilPointerPanic, w)
      | Some bc \<Rightarrow>
          (let retention = Retention bc;
               intervalHours = IntervalHours bc;
               expiredBackups = getExpiredBackups en w retention intervalHours clusterBackups
           in rotateLoop en expiredBackups w))"




subsection \<open>Observations on a history\<close>



fun saveCalls :: "event list \<Rightarrow> nat" where
  "saveCalls [] = 0"
| "saveCalls (EvETCDSave c n # w) = Suc (saveCalls w)"
| "saveCalls (e # w) = saveCalls w"

fun sleeps :: "event list \<Rightarrow> int list" where
  "sleeps [] = []"
| "sleeps (EvSleep d # w) = d # sleeps w"
| "sleeps (e # w) = sleeps w"

definition deleteEvent :: "EtcdBackup \<Rightarrow> event" where
  "deleteEvent b = EvBackupDelete (Namespace b) (Name b)"

subsection \<open>Example objects\<close>

text \<open>2019-06-05T10:00:00Z, in nanoseconds since the zero time.\<close>

definition exampleNow :: int where
  "exampleNow = 63695325600 * Second"

definition examplePolicy :: BackupConfig where
  "examplePolicy = \<lparr>Enabled = Some True, IntervalHours = 24, Retention = 3,
     S3BackupConfig = None, SafeTimestamp = True\<rparr>"

definition exampleS3 :: S3BackupConfig where
  "exampleS3 = \<lparr>AccessKey = ''AKIAEXAMPLE'', SecretKey = ''secret'', BucketName = ''backups'',
     Region = ''us-east-1'', Endpoint = [], CustomCA = [], Folder = ''etcd''\<rparr>"

definition exampleCluster :: "BackupConfig \<Rightarrow> Cluster" where
  "exampleCluster bc = \<lparr>cName = ''c-x7k2p'', cUID = ''uid-1'', cAPIVersion = ''management.cattle.io/v3'',
     cKind = ''Cluster'', cDeletionTimestamp = None,
     cSpec = \<lparr>RKEConfig = Some \<lparr>EtcdBackupConfig = Some bc\<rparr>\<rparr>,
     cConditions = [\<lparr>Type = ''Ready'', Status = ''True'', LastUpdateTime = [], Reason = [], Message = []\<rparr>]\<rparr>"


text \<open>A backup of the example cluster with the given conditions.\<close>

definition exampleBackup :: "string \<Rightarrow> bool \<Rightarrow> Condition list \<Rightarrow> EtcdBackup" where
  "exampleBackup n manual cs = \<lparr>Name = n, Namespace = ''c-x7k2p'', GenerateName = ''c-x7k2p-rl-'',
     OwnerReferences = [],
     Spec = \<lparr>ClusterID = ''c-x7k2p'', Manual = manual, Filename = n @ ''_2019-06-01T06-00-00Z.zip'',
             BackupConfig = examplePolicy\<rparr>,
     Conditions = cs\<rparr>"

definition cond :: "string \<Rightarrow> string \<Rightarrow> string \<Rightarrow> Condition" where
  "cond n st ts = \<lparr>Type = n, Status = st, LastUpdateTime = ts, Reason = [], Message = []\<rparr>"

text \<open>
  An environment in which every collaborator succeeds; the clock stands at \<open>exampleNow\<close> and
  the parser knows three time-stamps: now, 50 hours ago and 100 hours ago.
\<close>

definition exampleEnv :: env where
  "exampleEnv = \<lparr>
     e_now = (\<lambda>w. exampleNow),
     e_format = (\<lambda>t. ''2019-06-05T10:00:00Z''),
     e_parse = map_of [(''2019-06-05T10:00:00Z'', exampleNow),
                       (''2019-06-03T08:00:00Z'', exampleNow - 50 * Hour),
                       (''2019-06-01T06:00:00Z'', exampleNow - 100 * Hour)],
     e_clusterGet = (\<lambda>w i. Inr (exampleCluster examplePolicy)),
     e_driverGet = (\<lambda>w. None),
     e_backupUpdate = (\<lambda>w b. (b, None)),
     e_backupCreate = (\<lambda>w b. Inr (b\<lparr>Name := GenerateName b @ ''abcde''\<rparr>)),
     e_backupDelete = (\<lambda>w ns n. None),
     e_backupList = (\<lambda>w ns. Inr []),
     e_ETCDSave = (\<lambda>w c s n. None),
     e_ETCDRemoveSnapshot = (\<lambda>w c s n. None),
     e_GetBackupFilename = (\<lambda>b. Name b),
     e_GetBackupFilenameFromURL = (\<lambda>u. Inl (Error ''not a URL'')),
     e_minioNew = (\<lambda>w e opts. None),
     e_BucketExists = (\<lambda>w c b. Inr True),
     e_RemoveObject = (\<lambda>w c b k. None)\<rparr>"

text \<open>Variations of the example environment and an expired backup of the example cluster.\<close>

definition deleteFailsEnv :: "string \<Rightarrow> env" where
  "deleteFailsEnv n = exampleEnv\<lparr>e_backupDelete := (\<lambda>w ns name. if name = n then Some (Error ''delete failed'') else None)\<rparr>"

definition oldBackup :: "string \<Rightarrow> bool \<Rightarrow> EtcdBackup" where
  "oldBackup n m = exampleBackup n m [cond ''Completed'' ''True'' ''2019-06-01T06:00:00Z'']"

definition listEnv :: "EtcdBackup list \<Rightarrow> env" where
  "listEnv bs = exampleEnv\<lparr>e_backupList := (\<lambda>w ns. Inr bs)\<rparr>"

subsection \<open>Histories of a retried save\<close>

text \<open>
  The history before the attempt number \<open>i + 1\<close> of a save whose earlier attempts all failed:
  each failed attempt leaves the call, the warning and the sleep.
\<close>

fun saveHistory :: "env \<Rightarrow> Cluster \<Rightarrow> string \<Rightarrow> int \<Rightarrow> int \<Rightarrow> event list \<Rightarrow> nat \<Rightarrow> event list" where
  "saveHistory en c n d f w 0 = w"
| "saveHistory en c n d f w (Suc i) =
     (case e_ETCDSave en w (cName c) (cSpec c) n of
        Some e \<Rightarrow>
          saveHistory en c n (d * f) f
            (w @ [EvETCDSave (cName c) n, EvLog Warn (errorString e), EvSleep d]) i
      | None \<Rightarrow> w)"

definition saveFails :: "env \<Rightarrow> Cluster \<Rightarrow> string \<Rightarrow> event list \<Rightarrow> bool" where
  "saveFails en c n w = (e_ETCDSave en w (cName c) (cSpec c) n \<noteq> None)"

text \<open>An environment whose save fails until \<open>k\<close> save calls are in the history.\<close>

definition saveFailsEnv :: "nat \<Rightarrow> env" where
  "saveFailsEnv k = exampleEnv\<lparr>e_ETCDSave :=
     (\<lambda>w c s n. if saveCalls w < k then Some (Error ''etcd snapshot failed'') else None)\<rparr>"

definition pendingBackup :: EtcdBackup where
  "pendingBackup = exampleBackup ''c-x7k2p-rl-b5'' False [cond ''Created'' ''True'' [], cond ''Completed'' ''Unknown'' []]"

subsection \<open>Steps of a removal\<close>

text \<open>
  The attempts at the remote deletion and the pauses, in the order of the history: every
  attempt constructs the client once, every pause is a sleep.
\<close>

datatype step = Attempt | Pause int

fun s3Steps :: "event list \<Rightarrow> step list" where
  "s3Steps [] = []"
| "s3Steps (EvMinioNew e opts # w) = Attempt # s3Steps w"
| "s3Steps (EvSleep d # w) = Pause d # s3Steps w"
| "s3Steps (e # w) = s3Steps w"

text \<open>\<^verbatim>\<open>logrus.Infof("[etcd-backup] Deleting backup %s ", b.Name)\<close>, the first event of the removal hook.\<close>

definition deletingLog :: "EtcdBackup \<Rightarrow> event" where
  "deletingLog b = EvLog Info (''[etcd-backup] Deleting backup '' @ Name b @ '' '')"

text \<open>An environment in which the Snapshot Engine cannot remove and the blob store cannot delete.\<close>

definition removeFailsEnv :: env where
  "removeFailsEnv = exampleEnv\<lparr>
     e_ETCDRemoveSnapshot := (\<lambda>w c s n. Some (Error ''etcd remove failed'')),
     e_RemoveObject := (\<lambda>w c b k. Some (Error ''access denied''))\<rparr>"

definition remoteBackup :: EtcdBackup where
  "remoteBackup = pendingBackup\<lparr>Spec := (Spec pendingBackup)\<lparr>BackupConfig :=
     examplePolicy\<lparr>S3BackupConfig := Some (exampleS3\<lparr>Endpoint := ''s3.example.com''\<rparr>)\<rparr>\<rparr>\<rparr>"


section \<open>Properties\<close>

subsection \<open>Durations\<close>

lemma wrap64_id: "minDuration \<le> x \<Longrightarrow> x \<le> maxDuration \<Longrightarrow> wrap64 x = x"
  unfolding wrap64_def minDuration_def maxDuration_def
  by simp

lemma hours_in_range:
  assumes "minDuration \<le> k * Hour" "k * Hour \<le> maxDuration"
  shows "minDuration \<le> k" "k \<le> maxDuration" "k * Hour < maxDuration"
proof -
  show "minDuration \<le> k" "k \<le> maxDuration"
    using assms unfolding minDuration_def maxDuration_def Hour_def by simp_all
  consider "k \<le> 2562047" | "2562048 \<le> k" by linarith
  then show "k * Hour < maxDuration"
    using assms unfolding minDuration_def maxDuration_def Hour_def by cases simp_all
qed

lemma Sub_gt_iff: "k < maxDuration \<Longrightarrow> minDuration \<le> k \<Longrightarrow> (k < Sub t u) = (k < t - u)"
  unfolding Sub_def Let_def by auto

lemma example_now: "e_now exampleEnv w = exampleNow"
  by (simp add: exampleEnv_def)

lemma example_time_100h: "getBackupCompletedTime exampleEnv
    (exampleBackup n m [cond ''Completed'' st ''2019-06-01T06:00:00Z'']) = exampleNow - 100 * Hour"
  by (simp add: getBackupCompletedTime_def exampleEnv_def exampleBackup_def cond_def GetLastUpdated_def
      getTS_def findCond_def BackupConditionCompleted_def)

lemma example_time_50h: "getBackupCompletedTime exampleEnv
    (exampleBackup n m [cond ''Completed'' st ''2019-06-03T08:00:00Z'']) = exampleNow - 50 * Hour"
  by (simp add: getBackupCompletedTime_def exampleEnv_def exampleBackup_def cond_def GetLastUpdated_def
      getTS_def findCond_def BackupConditionCompleted_def)

subsection \<open>The create hook on a finished backup\<close>

text \<open>
  C1. A backup whose Completed condition is True or False comes back from the create hook as
  it went in, with no error and with the history as it was: no call to the Object Store or
  the Snapshot Engine, no reading of the clock for a file name, no condition written.
\<close>

theorem Create_terminal_noop:
  "IsTrue BackupConditionCompleted b \<or> IsFalse BackupConditionCompleted b \<Longrightarrow>
   Create en b w = ((b, None), w)"
  by (auto simp: Create_def)

theorem Create_terminal_noop_witness:
  "IsTrue BackupConditionCompleted
     (exampleBackup ''b1'' False [cond ''Created'' ''True'' [], cond ''Completed'' ''True'' ''2019-06-01T06:00:00Z'']) \<and>
   IsFalse BackupConditionCompleted
     (exampleBackup ''b3'' False [cond ''Created'' ''True'' [], cond ''Completed'' ''False'' ''2019-06-01T06:00:00Z'']) \<and>
   Create exampleEnv
     (exampleBackup ''b1'' False [cond ''Created'' ''True'' [], cond ''Completed'' ''True'' ''2019-06-01T06:00:00Z'']) [] =
     ((exampleBackup ''b1'' False [cond ''Created'' ''True'' [], cond ''Completed'' ''True'' ''2019-06-01T06:00:00Z''], None), []) \<and>
   Create exampleEnv
     (exampleBackup ''b3'' False [cond ''Created'' ''True'' [], cond ''Completed'' ''False'' ''2019-06-01T06:00:00Z'']) [] =
     ((exampleBackup ''b3'' False [cond ''Created'' ''True'' [], cond ''Completed'' ''False'' ''2019-06-01T06:00:00Z''], None), [])"
proof -
  have t: "IsTrue BackupConditionCompleted
     (exampleBackup ''b1'' False [cond ''Created'' ''True'' [], cond ''Completed'' ''True'' ''2019-06-01T06:00:00Z''])"
    by (simp add: IsTrue_def getStatus_def findCond_def exampleBackup_def cond_def BackupConditionCompleted_def)
  have f: "IsFalse BackupConditionCompleted
     (exampleBackup ''b3'' False [cond ''Created'' ''True'' [], cond ''Completed'' ''False'' ''2019-06-01T06:00:00Z''])"
    by (simp add: IsFalse_def getStatus_def findCond_def exampleBackup_def cond_def BackupConditionCompleted_def)
  show ?thesis
    using t f Create_terminal_noop[OF disjI1, OF t, of exampleEnv "[]"]
      Create_terminal_noop[OF disjI2, OF f, of exampleEnv "[]"]
    by simp
qed

subsection \<open>Expiry\<close>

text \<open>
  C5, as the claim states it, fails where the retention window leaves the range of a
  Duration: with retention 2562048 and an interval of one hour the product of the window
  and the hour wraps around to a negative Duration, and a backup completed 50 hours ago is
  expired although 50 hours do not exceed 2562048 hours.
\<close>

theorem getExpiredBackups_overflow:
  "exampleBackup ''b2'' False [cond ''Completed'' ''True'' ''2019-06-03T08:00:00Z'']
     \<in> set (getExpiredBackups exampleEnv [] 2562048 1
         [exampleBackup ''b2'' False [cond ''Completed'' ''True'' ''2019-06-03T08:00:00Z'']]) \<and>
   \<not> (2562048 * 1 * Hour < e_now exampleEnv [] -
        getBackupCompletedTime exampleEnv
          (exampleBackup ''b2'' False [cond ''Completed'' ''True'' ''2019-06-03T08:00:00Z'']))"
proof -
  have w: "wrap64 (wrap64 (2562048 * 1) * Hour) = - 9223371273709551616"
    by (simp add: wrap64_def Hour_def)
  show ?thesis
    unfolding getExpiredBackups_def Let_def w
    by (simp add: example_time_50h example_now Since_def Sub_def Hour_def minDuration_def maxDuration_def)
qed

text \<open>
  C5, amended. When the window of retention times intervalHours hours is a Duration (it lies
  between the least and the greatest Duration), a backup of the list is expired exactly when
  the time now minus its completed time is strictly greater than that window.
\<close>

theorem getExpiredBackups_window:
  assumes "minDuration \<le> retention * intervalHours * Hour"
      and "retention * intervalHours * Hour \<le> maxDuration"
  shows "b \<in> set (getExpiredBackups en w retention intervalHours backups) \<longleftrightarrow>
         b \<in> set backups \<and> retention * intervalHours * Hour < e_now en w - getBackupCompletedTime en b"
proof -
  have k: "wrap64 (retention * intervalHours) = retention * intervalHours"
    using hours_in_range(1,2)[OF assms] by (rule wrap64_id)
  have K: "wrap64 (retention * intervalHours * Hour) = retention * intervalHours * Hour"
    using assms by (rule wrap64_id)
  show ?thesis
    unfolding getExpiredBackups_def Let_def k K Since_def
    using Sub_gt_iff[OF hours_in_range(3)[OF assms] assms(1)] by auto
qed

text \<open>With retention 3 and an interval of 24 hours: completed 100 hours ago is expired, 50 hours ago is not.\<close>

theorem getExpiredBackups_window_witness:
  "minDuration \<le> 3 * 24 * Hour \<and> 3 * 24 * Hour \<le> maxDuration \<and>
   exampleBackup ''b1'' False [cond ''Completed'' ''True'' ''2019-06-01T06:00:00Z'']
     \<in> set (getExpiredBackups exampleEnv [] 3 24
         [exampleBackup ''b1'' False [cond ''Completed'' ''True'' ''2019-06-01T06:00:00Z''],
          exampleBackup ''b2'' False [cond ''Completed'' ''True'' ''2019-06-03T08:00:00Z'']]) \<and>
   exampleBackup ''b2'' False [cond ''Completed'' ''True'' ''2019-06-03T08:00:00Z'']
     \<notin> set (getExpiredBackups exampleEnv [] 3 24
         [exampleBackup ''b1'' False [cond ''Completed'' ''True'' ''2019-06-01T06:00:00Z''],
          exampleBackup ''b2'' False [cond ''Completed'' ''True'' ''2019-06-03T08:00:00Z'']])"
proof -
  have r: "minDuration \<le> 3 * 24 * Hour" "3 * 24 * Hour \<le> maxDuration"
    by (simp_all add: minDuration_def maxDuration_def Hour_def)
  show ?thesis
    using r getExpiredBackups_window[OF r, of _ exampleEnv "[]"]
    by (simp add: example_time_100h example_time_50h example_now Hour_def)
qed

subsection \<open>File names\<close>

text \<open>
  C8. Without a policy the file name is empty. With a policy, whatever its remote target,
  the local file name is the snapshot name, an underscore, the time-stamp, a dot and the
  archive extension; with safeTimestamp every colon of it is replaced by a dash, so no colon
  is left in it, and without safeTimestamp the time-stamp stands in it as it is. Without a
  remote target the result is this local file name; with one it is the local file name
  behind the address of the bucket, and of the folder when there is one.
\<close>

theorem generateBackupFilename_local:
  "generateBackupFilename ts snapshotName None = [] \<and>
   (let filename =
          (if SafeTimestamp bc
           then map (\<lambda>c. if c = CHR '':'' then CHR ''-'' else c) (snapshotName @ ''_'' @ ts @ ''.zip'')
           else snapshotName @ ''_'' @ ts @ ''.zip'')
    in (SafeTimestamp bc \<longrightarrow> CHR '':'' \<notin> set filename) \<and>
       generateBackupFilename ts snapshotName (Some bc) =
         (case S3BackupConfig bc of
            None \<Rightarrow> filename
          | Some s3 \<Rightarrow>
              if Folder s3 = []
              then ''https://'' @ Endpoint s3 @ ''/'' @ BucketName s3 @ ''/'' @ filename
              else ''https://'' @ Endpoint s3 @ ''/'' @ BucketName s3 @ ''/'' @ Folder s3 @ ''/'' @ filename))"
  unfolding Let_def
  by (auto simp: generateBackupFilename_def localFilename_def compressedExtension_def
      replaceColons_def split: option.splits)

text \<open>
  The same name and time-stamp under three policies: local and safe, local and not safe,
  remote with a folder and safe.
\<close>

theorem generateBackupFilename_local_witness:
  "SafeTimestamp examplePolicy \<and>
   generateBackupFilename ''2019-06-05T10:00:00Z'' ''c-x7k2p-rl-abcde'' (Some examplePolicy) =
     ''c-x7k2p-rl-abcde_2019-06-05T10-00-00Z.zip'' \<and>
   CHR '':'' \<notin> set ''c-x7k2p-rl-abcde_2019-06-05T10-00-00Z.zip'' \<and>
   generateBackupFilename ''2019-06-05T10:00:00Z'' ''c-x7k2p-rl-abcde'' (Some (examplePolicy\<lparr>SafeTimestamp := False\<rparr>)) =
     ''c-x7k2p-rl-abcde_2019-06-05T10:00:00Z.zip'' \<and>
   generateBackupFilename ''2019-06-05T10:00:00Z'' ''c-x7k2p-rl-abcde''
       (Some (examplePolicy\<lparr>S3BackupConfig := Some (exampleS3\<lparr>Endpoint := ''s3.example.com''\<rparr>)\<rparr>)) =
     ''https://s3.example.com/backups/etcd/c-x7k2p-rl-abcde_2019-06-05T10-00-00Z.zip''"
  using generateBackupFilename_local[of "''2019-06-05T10:00:00Z''" "''c-x7k2p-rl-abcde''" examplePolicy]
    generateBackupFilename_local[of "''2019-06-05T10:00:00Z''" "''c-x7k2p-rl-abcde''" "examplePolicy\<lparr>SafeTimestamp := False\<rparr>"]
    generateBackupFilename_local[of "''2019-06-05T10:00:00Z''" "''c-x7k2p-rl-abcde''"
      "examplePolicy\<lparr>S3BackupConfig := Some (exampleS3\<lparr>Endpoint := ''s3.example.com''\<rparr>)\<rparr>"]
  by (simp add: examplePolicy_def exampleS3_def)

subsection \<open>The blob-store client\<close>

text \<open>
  C9, as the claim states it, fails for a policy that has both keys and no endpoint: the
  client is constructed against the empty endpoint, not against the default one.
\<close>

theorem GetS3Client_static_empty_endpoint:
  "AccessKey exampleS3 \<noteq> [] \<and> SecretKey exampleS3 \<noteq> [] \<and> Endpoint exampleS3 = [] \<and>
   s3Endpoint \<noteq> [] \<and>
   GetS3Client exampleEnv (Some exampleS3) defaultTransportTimeout [] =
     (Inr \<lparr>clEndpoint = [],
           clOptions = \<lparr>Creds = NewStatic ''AKIAEXAMPLE'' ''secret'' [], oRegion = ''us-east-1'',
                        Secure = True, BucketLookup = BucketLookupAuto\<rparr>,
           clTransport = None\<rparr>,
      [EvMinioNew [] \<lparr>Creds = NewStatic ''AKIAEXAMPLE'' ''secret'' [], oRegion = ''us-east-1'',
                        Secure = True, BucketLookup = BucketLookupAuto\<rparr>])"
  by (simp add: GetS3Client_def exampleS3_def exampleEnv_def getBucketLookupType_def Let_def s3Endpoint_def)

text \<open>
  C9, amended. The client is constructed once, with IAM credentials when the access key or
  the secret key is empty and with the two keys as static credentials otherwise. Its
  endpoint is the default one when a key is missing and the policy's endpoint is empty; in
  every other case it is the policy's endpoint as given, also when that is empty.
\<close>

theorem GetS3Client_endpoint:
  "\<exists>opts. snd (GetS3Client en (Some s) timeout w) =
      w @ [EvMinioNew (if AccessKey s = [] \<or> SecretKey s = []
                       then (if Endpoint s = [] then s3Endpoint else Endpoint s)
                       else Endpoint s) opts] \<and>
    Creds opts = (if AccessKey s = [] \<or> SecretKey s = [] then NewIAM []
                  else NewStatic (AccessKey s) (SecretKey s) []) \<and>
    (case fst (GetS3Client en (Some s) timeout w) of
       Inl err \<Rightarrow> e_minioNew en w (if AccessKey s = [] \<or> SecretKey s = []
                       then (if Endpoint s = [] then s3Endpoint else Endpoint s)
                       else Endpoint s) opts = Some err
     | Inr client \<Rightarrow>
         clOptions client = opts \<and>
         clEndpoint client = (if AccessKey s = [] \<or> SecretKey s = []
                       then (if Endpoint s = [] then s3Endpoint else Endpoint s)
                       else Endpoint s))"
  by (simp add: GetS3Client_def Let_def split: option.splits)

subsection \<open>Rotation\<close>

lemma getExpiredBackups_subset: "set (getExpiredBackups en w r i bs) \<subseteq> set bs"
  unfolding getExpiredBackups_def Let_def by auto

lemma rotateLoop_deletes:
  "\<exists>ds. snd (rotateLoop en xs w) = w @ map deleteEvent ds \<and>
        (\<forall>d\<in>set ds. d \<in> set xs \<and> \<not> Manual (Spec d))"
proof (induction xs arbitrary: w)
  case Nil
  show ?case by (rule exI[of _ "[]"]) simp
next
  case (Cons x xs)
  show ?case
  proof (cases "Manual (Spec x)")
    case True
    with Cons.IH[of w] show ?thesis by auto
  next
    case False
    show ?thesis
    proof (cases "e_backupDelete en w (Namespace x) (Name x)")
      case (Some err)
      with False show ?thesis
        by (intro exI[of _ "[x]"]) (simp add: deleteEvent_def)
    next
      case None
      obtain ds where ds: "snd (rotateLoop en xs (w @ [deleteEvent x])) = (w @ [deleteEvent x]) @ map deleteEvent ds"
        "\<forall>d\<in>set ds. d \<in> set xs \<and> \<not> Manual (Spec d)"
        using Cons.IH[of "w @ [deleteEvent x]"] by blast
      with False None show ?thesis
        by (intro exI[of _ "x # ds"]) (simp add: deleteEvent_def)
    qed
  qed
qed

text \<open>
  C3, amended. The expired-backups computation returns members of the list it is given,
  whatever their manual flag; given only non-manual backups, as the sweep gives it (the
  recurring list holds no manual backup), it returns only non-manual ones. Rotation never
  deletes a manual backup: every deletion it issues is of a non-manual member of the list,
  the manual entries of the expired list being skipped at deletion time.
\<close>

theorem rotation_spares_manual:
  "set (getExpiredBackups en w retention intervalHours backups) \<subseteq> set backups \<and>
   ((\<forall>b\<in>set backups. \<not> Manual (Spec b)) \<longrightarrow>
      (\<forall>b\<in>set (getExpiredBackups en w retention intervalHours backups). \<not> Manual (Spec b))) \<and>
   (\<forall>recurring. fst (getRecuringBackupsList en cluster w) = Inr recurring \<longrightarrow>
      (\<forall>b\<in>set recurring. \<not> Manual (Spec b))) \<and>
   (\<exists>ds. snd (rotateExpiredBackups en cluster backups w) = w @ map deleteEvent ds \<and>
         (\<forall>d\<in>set ds. d \<in> set backups \<and> \<not> Manual (Spec d)))"
proof (intro conjI)
  show "set (getExpiredBackups en w retention intervalHours backups) \<subseteq> set backups"
    by (rule getExpiredBackups_subset)
  show "(\<forall>b\<in>set backups. \<not> Manual (Spec b)) \<longrightarrow>
      (\<forall>b\<in>set (getExpiredBackups en w retention intervalHours backups). \<not> Manual (Spec b))"
    using getExpiredBackups_subset[of en w retention intervalHours backups] by blast
  show "\<forall>recurring. fst (getRecuringBackupsList en cluster w) = Inr recurring \<longrightarrow>
      (\<forall>b\<in>set recurring. \<not> Manual (Spec b))"
    by (auto simp: getRecuringBackupsList_def Let_def split: sum.splits)
  show "\<exists>ds. snd (rotateExpiredBackups en cluster backups w) = w @ map deleteEvent ds \<and>
         (\<forall>d\<in>set ds. d \<in> set backups \<and> \<not> Manual (Spec d))"
  proof (cases "clusterBackupConfig cluster")
    case None
    then show ?thesis
      by (intro exI[of _ "[]"]) (simp add: rotateExpiredBackups_def)
  next
    case (Some bc)
    obtain ds where "snd (rotateLoop en (getExpiredBackups en w (Retention bc) (IntervalHours bc) backups) w) =
        w @ map deleteEvent ds"
      "\<forall>d\<in>set ds. d \<in> set (getExpiredBackups en w (Retention bc) (IntervalHours bc) backups) \<and> \<not> Manual (Spec d)"
      using rotateLoop_deletes by blast
    with Some show ?thesis
      using getExpiredBackups_subset[of en w "Retention bc" "IntervalHours bc" backups]
      by (intro exI[of _ ds]) (auto simp: rotateExpiredBackups_def Let_def)
  qed
qed

lemma oldBackup_expired: "getExpiredBackups exampleEnv w 3 24 [oldBackup n m] = [oldBackup n m]"
  by (simp add: getExpiredBackups_def oldBackup_def example_time_100h example_now Since_def Sub_def
      wrap64_def Hour_def minDuration_def maxDuration_def exampleNow_def Second_def)

text \<open>
  C3, as the claim states it, fails: the expired-backups computation does not look at the
  manual flag, and returns a manual backup that is old enough.
\<close>

theorem expired_manual_counterexample:
  "Manual (Spec (oldBackup ''m1'' True)) \<and>
   getExpiredBackups exampleEnv [] 3 24 [oldBackup ''m1'' True] = [oldBackup ''m1'' True]"
  by (simp add: oldBackup_expired) (simp add: oldBackup_def exampleBackup_def)

lemma example_config: "clusterBackupConfig (exampleCluster bc) = Some bc"
  by (simp add: clusterBackupConfig_def exampleCluster_def)

lemma oldBackup_expired2: "getExpiredBackups exampleEnv w 3 24 [oldBackup n m, oldBackup n' m'] = [oldBackup n m, oldBackup n' m']"
  by (simp add: getExpiredBackups_def oldBackup_def example_time_100h example_now Since_def Sub_def
      wrap64_def Hour_def minDuration_def maxDuration_def exampleNow_def Second_def)

theorem rotation_spares_manual_witness:
  "\<not> Manual (Spec (oldBackup ''b1'' False)) \<and>
   getExpiredBackups exampleEnv [] 3 24 [oldBackup ''b1'' False] = [oldBackup ''b1'' False] \<and>
   fst (getRecuringBackupsList (listEnv [oldBackup ''b1'' False, oldBackup ''m1'' True]) (exampleCluster examplePolicy) []) =
     Inr [oldBackup ''b1'' False] \<and>
   snd (rotateExpiredBackups exampleEnv (exampleCluster examplePolicy) [oldBackup ''b1'' False, oldBackup ''m1'' True] []) =
     [deleteEvent (oldBackup ''b1'' False)]"
proof -
  have m: "\<not> Manual (Spec (oldBackup ''b1'' False))" "Manual (Spec (oldBackup ''m1'' True))"
    by (simp_all add: oldBackup_def exampleBackup_def)
  have l: "fst (getRecuringBackupsList (listEnv [oldBackup ''b1'' False, oldBackup ''m1'' True]) (exampleCluster examplePolicy) []) =
     Inr [oldBackup ''b1'' False]"
    by (simp add: getRecuringBackupsList_def listEnv_def m)
  have d: "e_backupDelete exampleEnv w ns n = None" for w ns n
    by (simp add: exampleEnv_def)
  have r: "snd (rotateExpiredBackups exampleEnv (exampleCluster examplePolicy) [oldBackup ''b1'' False, oldBackup ''m1'' True] []) =
     [deleteEvent (oldBackup ''b1'' False)]"
    by (simp add: rotateExpiredBackups_def example_config examplePolicy_def oldBackup_expired2 m d deleteEvent_def)
  show ?thesis
    using rotation_spares_manual[of exampleEnv "[]" 3 24 "[oldBackup ''b1'' False]" "exampleCluster examplePolicy"]
      rotation_spares_manual[of "listEnv [oldBackup ''b1'' False, oldBackup ''m1'' True]" "[]" 3 24 "[oldBackup ''b1'' False, oldBackup ''m1'' True]" "exampleCluster examplePolicy"]
    by (simp add: m l r oldBackup_expired)
qed

subsection \<open>Rotation stops at the first failed deletion\<close>

lemma rotateLoop_append:
  "fst (rotateLoop en pre w) = None \<Longrightarrow>
   rotateLoop en (pre @ rest) w = rotateLoop en rest (snd (rotateLoop en pre w))"
  by (induction pre arbitrary: w) (auto simp: Let_def split: option.splits)

lemma rotateLoop_ok_trace:
  "fst (rotateLoop en xs w) = None \<Longrightarrow>
   snd (rotateLoop en xs w) = w @ map deleteEvent (filter (\<lambda>b. \<not> Manual (Spec b)) xs)"
  by (induction xs arbitrary: w) (auto simp: Let_def deleteEvent_def split: option.splits)

text \<open>
  C10. When the deletions of the expired backups before \<open>b\<close> went through and the deletion
  of \<open>b\<close> fails, rotation returns that error at once: the history ends with the failed
  deletion, and no deletion is issued for the expired backups after \<open>b\<close>.
\<close>

theorem rotateExpiredBackups_aborts:
  assumes "clusterBackupConfig cluster = Some bc"
      and "getExpiredBackups en w (Retention bc) (IntervalHours bc) backups = pre @ b # rest"
      and "fst (rotateLoop en pre w) = None"
      and "\<not> Manual (Spec b)"
      and "e_backupDelete en (w @ map deleteEvent (filter (\<lambda>x. \<not> Manual (Spec x)) pre))
             (Namespace b) (Name b) = Some err"
  shows "rotateExpiredBackups en cluster backups w =
         (Some err, w @ map deleteEvent (filter (\<lambda>x. \<not> Manual (Spec x)) pre) @ [deleteEvent b])"
proof -
  have "rotateExpiredBackups en cluster backups w = rotateLoop en (pre @ b # rest) w"
    using assms(1,2) by (simp add: rotateExpiredBackups_def Let_def)
  also have "\<dots> = rotateLoop en (b # rest) (snd (rotateLoop en pre w))"
    using assms(3) by (rule rotateLoop_append)
  also have "snd (rotateLoop en pre w) = w @ map deleteEvent (filter (\<lambda>x. \<not> Manual (Spec x)) pre)"
    using assms(3) by (rule rotateLoop_ok_trace)
  finally show ?thesis
    using assms(4,5) by (simp add: Let_def deleteEvent_def)
qed

lemma oldBackup_expired3: "getExpiredBackups en w 3 24 [oldBackup n m, oldBackup n' m', oldBackup n'' m''] =
   [oldBackup n m, oldBackup n' m', oldBackup n'' m'']" if "e_now en w = exampleNow" "e_parse en = e_parse exampleEnv"
proof -
  have "getBackupCompletedTime en (oldBackup k j) = exampleNow - 100 * Hour" for k j
    using example_time_100h[of k j] that(2) by (simp add: getBackupCompletedTime_def oldBackup_def)
  then show ?thesis
    by (simp add: getExpiredBackups_def that Since_def Sub_def
      wrap64_def Hour_def minDuration_def maxDuration_def exampleNow_def Second_def)
qed

theorem rotateExpiredBackups_aborts_witness:
  "rotateExpiredBackups (deleteFailsEnv ''b1'') (exampleCluster examplePolicy)
     [oldBackup ''b0'' False, oldBackup ''b1'' False, oldBackup ''b4'' False] [] =
   (Some (Error ''delete failed''), [deleteEvent (oldBackup ''b0'' False), deleteEvent (oldBackup ''b1'' False)])"
proof -
  have m: "\<not> Manual (Spec (oldBackup n False))" "Name (oldBackup n False) = n" for n
    by (simp_all add: oldBackup_def exampleBackup_def)
  have e: "getExpiredBackups (deleteFailsEnv ''b1'') [] (Retention examplePolicy) (IntervalHours examplePolicy)
      [oldBackup ''b0'' False, oldBackup ''b1'' False, oldBackup ''b4'' False] = [oldBackup ''b0'' False] @ oldBackup ''b1'' False # [oldBackup ''b4'' False]"
    using oldBackup_expired3[of "deleteFailsEnv ''b1''" "[]"]
    by (simp add: examplePolicy_def deleteFailsEnv_def exampleEnv_def)
  have p: "fst (rotateLoop (deleteFailsEnv ''b1'') [oldBackup ''b0'' False] []) = None"
    by (simp add: m deleteFailsEnv_def)
  have d: "e_backupDelete (deleteFailsEnv ''b1'') ([] @ map deleteEvent (filter (\<lambda>x. \<not> Manual (Spec x)) [oldBackup ''b0'' False]))
             (Namespace (oldBackup ''b1'' False)) (Name (oldBackup ''b1'' False)) = Some (Error ''delete failed'')"
    by (simp add: m deleteFailsEnv_def)
  show ?thesis
    using rotateExpiredBackups_aborts[OF example_config e p m(1) d] by (simp add: m)
qed

subsection \<open>The retried save\<close>

lemma saveCalls_append: "saveCalls (w @ v) = saveCalls w + saveCalls v"
  by (induction w rule: saveCalls.induct) auto

lemma sleeps_append: "sleeps (w @ v) = sleeps w @ sleeps v"
  by (induction w rule: sleeps.induct) auto

lemma save_step_ok:
  "e_ETCDSave en w (cName c) (cSpec c) n = None \<Longrightarrow>
   backoffLoop (Suc m) d f (saveCondition en c n) v w = ((None, None), w @ [EvETCDSave (cName c) n])"
  by (simp add: saveCondition_def)

lemma save_step_last:
  "e_ETCDSave en w (cName c) (cSpec c) n = Some e \<Longrightarrow>
   backoffLoop (Suc 0) d f (saveCondition en c n) v w =
     ((Some ErrWaitTimeout, Some e), w @ [EvETCDSave (cName c) n, EvLog Warn (errorString e)])"
  by (simp add: saveCondition_def)

lemma save_step_retry:
  "e_ETCDSave en w (cName c) (cSpec c) n = Some e \<Longrightarrow>
   backoffLoop (Suc (Suc m)) d f (saveCondition en c n) v w =
     backoffLoop (Suc m) (d * f) f (saveCondition en c n) (Some e)
       (w @ [EvETCDSave (cName c) n, EvLog Warn (errorString e), EvSleep d])"
  by (simp add: saveCondition_def)

lemma backoffLoop_save_success:
  "k < m \<Longrightarrow> (\<forall>i<k. saveFails en c n (saveHistory en c n d f w i)) \<Longrightarrow>
   \<not> saveFails en c n (saveHistory en c n d f w k) \<Longrightarrow>
   backoffLoop m d f (saveCondition en c n) v w =
     ((None, None), saveHistory en c n d f w k @ [EvETCDSave (cName c) n])"
proof (induction k arbitrary: m d w v)
  case 0
  then obtain m' where "m = Suc m'" by (cases m) auto
  with 0 show ?case by (simp add: saveFails_def save_step_ok del: backoffLoop.simps)
next
  case (Suc k)
  from Suc.prems(1) obtain j where "m = Suc (Suc k + j)"
    using less_iff_Suc_add by auto
  then obtain m' where m: "m = Suc (Suc m')" "k < Suc m'"
    by simp
  from Suc.prems(2) have "saveFails en c n (saveHistory en c n d f w 0)" by blast
  then obtain e where e: "e_ETCDSave en w (cName c) (cSpec c) n = Some e"
    by (auto simp: saveFails_def)
  let ?w = "w @ [EvETCDSave (cName c) n, EvLog Warn (errorString e), EvSleep d]"
  have h: "saveHistory en c n d f w (Suc i) = saveHistory en c n (d * f) f ?w i" for i
    using e by simp
  have 1: "\<forall>i<k. saveFails en c n (saveHistory en c n (d * f) f ?w i)"
    using Suc.prems(2) h by (metis Suc_less_eq)
  have 2: "\<not> saveFails en c n (saveHistory en c n (d * f) f ?w k)"
    using Suc.prems(3) h by simp
  have "backoffLoop m d f (saveCondition en c n) v w =
        backoffLoop (Suc m') (d * f) f (saveCondition en c n) (Some e) ?w"
    unfolding m(1) using e by (rule save_step_retry)
  with Suc.IH[OF m(2) 1 2] show ?case by (simp only: h)
qed

lemma backoffLoop_save_exhausted:
  "(\<forall>i\<le>m. saveFails en c n (saveHistory en c n d f w i)) \<Longrightarrow>
   \<exists>e. e_ETCDSave en (saveHistory en c n d f w m) (cName c) (cSpec c) n = Some e \<and>
       backoffLoop (Suc m) d f (saveCondition en c n) v w =
         ((Some ErrWaitTimeout, Some e),
          saveHistory en c n d f w m @ [EvETCDSave (cName c) n, EvLog Warn (errorString e)])"
proof (induction m arbitrary: d w v)
  case 0
  then show ?case by (auto simp: saveFails_def save_step_last simp del: backoffLoop.simps)
next
  case (Suc m)
  from Suc.prems have "saveFails en c n (saveHistory en c n d f w 0)" by blast
  then obtain e where e: "e_ETCDSave en w (cName c) (cSpec c) n = Some e"
    by (auto simp: saveFails_def)
  let ?w = "w @ [EvETCDSave (cName c) n, EvLog Warn (errorString e), EvSleep d]"
  have h: "saveHistory en c n d f w (Suc i) = saveHistory en c n (d * f) f ?w i" for i
    using e by simp
  have 1: "\<forall>i\<le>m. saveFails en c n (saveHistory en c n (d * f) f ?w i)"
    using Suc.prems h by (metis Suc_le_mono)
  have "backoffLoop (Suc (Suc m)) d f (saveCondition en c n) v w =
        backoffLoop (Suc m) (d * f) f (saveCondition en c n) (Some e) ?w"
    using e by (rule save_step_retry)
  with Suc.IH[OF 1, of "Some e"] show ?case by (simp only: h)
qed

lemma backoffLoop_save_bound:
  "saveCalls (snd (backoffLoop m d f (saveCondition en c n) v w)) \<le> saveCalls w + m"
proof (induction m arbitrary: d v w)
  case 0
  show ?case by simp
next
  case (Suc m)
  show ?case
  proof (cases "e_ETCDSave en w (cName c) (cSpec c) n")
    case None
    then show ?thesis by (simp add: save_step_ok saveCalls_append del: backoffLoop.simps)
  next
    case (Some e)
    let ?w = "w @ [EvETCDSave (cName c) n, EvLog Warn (errorString e), EvSleep d]"
    have c: "saveCalls ?w = Suc (saveCalls w)" by (simp add: saveCalls_append)
    show ?thesis
    proof (cases m)
      case 0
      with Some show ?thesis by (simp add: save_step_last saveCalls_append del: backoffLoop.simps)
    next
      case (Suc m')
      with Suc.IH[of "d * f" "Some e" ?w] Some c show ?thesis
        by (simp add: save_step_retry del: backoffLoop.simps)
    qed
  qed
qed

lemma saveHistory_counts:
  "(\<forall>i<k. saveFails en c n (saveHistory en c n d f w i)) \<Longrightarrow>
   saveCalls (saveHistory en c n d f w k) = saveCalls w + k \<and>
   sleeps (saveHistory en c n d f w k) = sleeps w @ map (\<lambda>i. d * f ^ i) [0..<k]"
proof (induction k arbitrary: d w)
  case 0
  show ?case by simp
next
  case (Suc k)
  from Suc.prems have "saveFails en c n (saveHistory en c n d f w 0)" by blast
  then obtain e where e: "e_ETCDSave en w (cName c) (cSpec c) n = Some e"
    by (auto simp: saveFails_def)
  let ?w = "w @ [EvETCDSave (cName c) n, EvLog Warn (errorString e), EvSleep d]"
  have h: "saveHistory en c n d f w (Suc i) = saveHistory en c n (d * f) f ?w i" for i
    using e by simp
  have 1: "\<forall>i<k. saveFails en c n (saveHistory en c n (d * f) f ?w i)"
    using Suc.prems h by (metis Suc_less_eq)
  have m: "map (\<lambda>i. d * f ^ i) [0..<Suc k] = d # map (\<lambda>i. d * f * f ^ i) [0..<k]"
    by (simp add: upt_conv_Cons map_Suc_upt[symmetric] mult.assoc del: upt_Suc)
  show ?case
    using Suc.IH[OF 1] unfolding h m by (simp add: saveCalls_append sleeps_append)
qed

lemma find_app: "find P (xs @ ys) = (case find P xs of None \<Rightarrow> find P ys | Some x \<Rightarrow> Some x)"
  by (induction xs) auto

lemma findCond_findOrCreate: "findCond (findOrCreateCond cs n) n \<noteq> None"
  by (induction cs) (auto simp: findCond_def findOrCreateCond_def)

lemma getStatus_updCond:
  "findCond cs n \<noteq> None \<Longrightarrow> (\<And>c. Type (g c) = Type c) \<Longrightarrow>
   getStatus (updCond g n cs) n = Status (g (the (findCond cs n)))"
  by (induction cs) (auto simp: findCond_def getStatus_def)

lemma getStatus_setStatus: "getStatus (setStatus ts n st cs) n = st"
  unfolding setStatus_def
  by (subst getStatus_updCond) (auto simp: findCond_findOrCreate)

lemma findOrCreate_present: "findCond cs n \<noteq> None \<Longrightarrow> findOrCreateCond cs n = cs"
  by (simp add: findOrCreateCond_def)

lemma getStatus_ReasonAndMessage:
  "getStatus (Conditions (ReasonAndMessageFromError n b e)) n = getStatus (Conditions b) n"
proof (cases "findCond (Conditions b) n")
  case None
  then show ?thesis
    unfolding ReasonAndMessageFromError_def
    by (simp add: getStatus_updCond findCond_findOrCreate)
       (simp add: findOrCreateCond_def findCond_def getStatus_def find_app split: option.splits)
next
  case (Some c)
  then show ?thesis
    unfolding ReasonAndMessageFromError_def
    by (simp add: getStatus_updCond findOrCreate_present) (simp add: getStatus_def)
qed

lemma IsTrue_CondTrue: "IsTrue n (CondTrue en w n b)"
  by (simp add: IsTrue_def CondTrue_def getStatus_setStatus)

lemma IsFalse_failed: "IsFalse n (ReasonAndMessageFromError n (CondFalse en w n b) e)"
  by (simp add: IsFalse_def getStatus_ReasonAndMessage) (simp add: CondFalse_def getStatus_setStatus)

lemma etcdSaveWithBackoff_loop:
  assumes "e_driverGet en w = None"
      and "e_clusterGet en (w @ [EvKontainerDriverGet]) (ClusterID (Spec b)) = Inr cluster"
  shows "etcdSaveWithBackoff en b w =
     (case backoffLoop 5 (1 * Second) 2
             (saveCondition en cluster
                (e_GetBackupFilename en (Unknown en (w @ [EvKontainerDriverGet]) BackupConditionCompleted b)))
             None (w @ [EvKontainerDriverGet, EvClusterGet (ClusterID (Spec b))]) of
        ((err, inErr), w3) \<Rightarrow>
          (case inErr of
             Some e \<Rightarrow>
               ((ReasonAndMessageFromError BackupConditionCompleted
                   (CondFalse en w3 BackupConditionCompleted
                      (ReasonAndMessageFromError BackupConditionCompleted
                         (CondFalse en w3 BackupConditionCompleted
                            (Unknown en (w @ [EvKontainerDriverGet]) BackupConditionCompleted b)) e)) e,
                 Some e), w3)
           | None \<Rightarrow>
               ((CondTrue en w3 BackupConditionCompleted
                   (Unknown en (w @ [EvKontainerDriverGet]) BackupConditionCompleted b), None), w3)))"
proof -
  have s: "ClusterID (Spec (Unknown en v n b)) = ClusterID (Spec b)" for v n
    by (simp add: Unknown_def)
  show ?thesis
    using assms
    by (simp add: etcdSaveWithBackoff_def Do_def saveOperation_def ExponentialBackoff_def getBackoff_def
        Millisecond_def Second_def s del: backoffLoop.simps split: prod.splits option.splits)
qed

lemma etcdSaveWithBackoff_bound:
  "saveCalls (snd (etcdSaveWithBackoff en b w)) \<le> saveCalls w + 5"
proof (cases "e_driverGet en w")
  case (Some e)
  then show ?thesis by (simp add: etcdSaveWithBackoff_def saveCalls_append)
next
  case None
  show ?thesis
  proof (cases "e_clusterGet en (w @ [EvKontainerDriverGet]) (ClusterID (Spec b))")
    case (Inl e)
    have s: "ClusterID (Spec (Unknown en v n b)) = ClusterID (Spec b)" for v n
      by (simp add: Unknown_def)
    from None Inl show ?thesis
      by (simp add: etcdSaveWithBackoff_def Do_def saveOperation_def s saveCalls_append)
  next
    case (Inr cluster)
    let ?n = "e_GetBackupFilename en (Unknown en (w @ [EvKontainerDriverGet]) BackupConditionCompleted b)"
    let ?w = "w @ [EvKontainerDriverGet, EvClusterGet (ClusterID (Spec b))]"
    have "saveCalls (snd (backoffLoop 5 (1 * Second) 2 (saveCondition en cluster ?n) None ?w)) \<le> saveCalls ?w + 5"
      by (rule backoffLoop_save_bound)
    moreover have "saveCalls ?w = saveCalls w" by (simp add: saveCalls_append)
    ultimately show ?thesis
      unfolding etcdSaveWithBackoff_loop[OF None Inr]
      by (auto split: prod.splits option.splits simp del: backoffLoop.simps)
  qed
qed

text \<open>
  C6. The backoff of the save starts at one second, has factor 2, no jitter and 5 steps, and
  the save is called at most 5 times. When the driver and the cluster are found: if the
  attempts before attempt \<open>k + 1\<close> fail and that attempt succeeds, the save returns no
  error at once, after exactly \<open>k + 1\<close> calls with sleeps of 1, 2, 4, ... seconds between
  them, and Completed is True; if all 5 attempts fail, it returns the error of the fifth
  attempt, after 5 calls and sleeps of 1, 2, 4 and 8 seconds, and Completed is False.
\<close>

theorem etcdSaveWithBackoff_retries:
  assumes drv: "e_driverGet en w = None"
      and cl: "e_clusterGet en (w @ [EvKontainerDriverGet]) (ClusterID (Spec b)) = Inr cluster"
      and n: "n = e_GetBackupFilename en (Unknown en (w @ [EvKontainerDriverGet]) BackupConditionCompleted b)"
      and h: "h = saveHistory en cluster n (1 * Second) 2
                    (w @ [EvKontainerDriverGet, EvClusterGet (ClusterID (Spec b))])"
  shows "getBackoff = \<lparr>Duration = 1 * Second, Factor = 2, Jitter = 0, Steps = 5\<rparr> \<and>
         saveCalls (snd (etcdSaveWithBackoff en b w)) \<le> saveCalls w + 5 \<and>
         (\<forall>k<5. (\<forall>i<k. saveFails en cluster n (h i)) \<and> \<not> saveFails en cluster n (h k) \<longrightarrow>
            (\<exists>obj. etcdSaveWithBackoff en b w = ((obj, None), h k @ [EvETCDSave (cName cluster) n]) \<and>
                   IsTrue BackupConditionCompleted obj) \<and>
            saveCalls (snd (etcdSaveWithBackoff en b w)) = saveCalls w + k + 1 \<and>
            sleeps (snd (etcdSaveWithBackoff en b w)) = sleeps w @ map (\<lambda>i. 1 * Second * 2 ^ i) [0..<k]) \<and>
         ((\<forall>i<5. saveFails en cluster n (h i)) \<longrightarrow>
            (\<exists>obj e. e_ETCDSave en (h 4) (cName cluster) (cSpec cluster) n = Some e \<and>
                     etcdSaveWithBackoff en b w =
                       ((obj, Some e), h 4 @ [EvETCDSave (cName cluster) n, EvLog Warn (errorString e)]) \<and>
                     IsFalse BackupConditionCompleted obj) \<and>
            saveCalls (snd (etcdSaveWithBackoff en b w)) = saveCalls w + 5 \<and>
            sleeps (snd (etcdSaveWithBackoff en b w)) =
              sleeps w @ [1 * Second, 2 * Second, 4 * Second, 8 * Second])"
proof (intro conjI allI impI)
  show "getBackoff = \<lparr>Duration = 1 * Second, Factor = 2, Jitter = 0, Steps = 5\<rparr>"
    by (simp add: getBackoff_def Millisecond_def Second_def)
  show "saveCalls (snd (etcdSaveWithBackoff en b w)) \<le> saveCalls w + 5"
    by (rule etcdSaveWithBackoff_bound)
next
  fix k :: nat
  assume k: "k < 5" and f: "(\<forall>i<k. saveFails en cluster n (h i)) \<and> \<not> saveFails en cluster n (h k)"
  let ?w = "w @ [EvKontainerDriverGet, EvClusterGet (ClusterID (Spec b))]"
  have l: "backoffLoop 5 (1 * Second) 2 (saveCondition en cluster n) None ?w =
           ((None, None), h k @ [EvETCDSave (cName cluster) n])"
    unfolding h using k f by (intro backoffLoop_save_success) (auto simp: h)
  have e: "etcdSaveWithBackoff en b w =
      ((CondTrue en (h k @ [EvETCDSave (cName cluster) n]) BackupConditionCompleted
          (Unknown en (w @ [EvKontainerDriverGet]) BackupConditionCompleted b), None),
       h k @ [EvETCDSave (cName cluster) n])"
    unfolding etcdSaveWithBackoff_loop[OF drv cl] n[symmetric] l by simp
  show "\<exists>obj. etcdSaveWithBackoff en b w = ((obj, None), h k @ [EvETCDSave (cName cluster) n]) \<and>
                   IsTrue BackupConditionCompleted obj"
    unfolding e by (simp add: IsTrue_CondTrue)
  have c: "saveCalls (h k) = saveCalls ?w + k \<and>
           sleeps (h k) = sleeps ?w @ map (\<lambda>i. 1 * Second * 2 ^ i) [0..<k]"
    unfolding h using f by (intro saveHistory_counts) (auto simp: h)
  show "saveCalls (snd (etcdSaveWithBackoff en b w)) = saveCalls w + k + 1"
    unfolding e using c by (simp add: saveCalls_append)
  show "sleeps (snd (etcdSaveWithBackoff en b w)) = sleeps w @ map (\<lambda>i. 1 * Second * 2 ^ i) [0..<k]"
    unfolding e using c by (simp add: sleeps_append)
next
  assume f: "\<forall>i<5. saveFails en cluster n (h i)"
  let ?w = "w @ [EvKontainerDriverGet, EvClusterGet (ClusterID (Spec b))]"
  have f4: "\<forall>i\<le>4. saveFails en cluster n (saveHistory en cluster n (1 * Second) 2 ?w i)"
    using f by (auto simp: h)
  obtain e where e: "e_ETCDSave en (h 4) (cName cluster) (cSpec cluster) n = Some e"
    and l: "backoffLoop 5 (1 * Second) 2 (saveCondition en cluster n) None ?w =
      ((Some ErrWaitTimeout, Some e), h 4 @ [EvETCDSave (cName cluster) n, EvLog Warn (errorString e)])"
    using backoffLoop_save_exhausted[OF f4, of None] unfolding h by auto
  let ?h = "h 4 @ [EvETCDSave (cName cluster) n, EvLog Warn (errorString e)]"
  have r: "etcdSaveWithBackoff en b w =
      ((ReasonAndMessageFromError BackupConditionCompleted
                   (CondFalse en ?h BackupConditionCompleted
                      (ReasonAndMessageFromError BackupConditionCompleted
                         (CondFalse en ?h BackupConditionCompleted
                            (Unknown en (w @ [EvKontainerDriverGet]) BackupConditionCompleted b)) e)) e, Some e), ?h)"
    unfolding etcdSaveWithBackoff_loop[OF drv cl] n[symmetric] l by simp
  show "\<exists>obj e. e_ETCDSave en (h 4) (cName cluster) (cSpec cluster) n = Some e \<and>
                     etcdSaveWithBackoff en b w =
                       ((obj, Some e), h 4 @ [EvETCDSave (cName cluster) n, EvLog Warn (errorString e)]) \<and>
                     IsFalse BackupConditionCompleted obj"
    unfolding r using e by (simp add: IsFalse_failed)
  have c: "saveCalls (h 4) = saveCalls ?w + 4 \<and>
           sleeps (h 4) = sleeps ?w @ map (\<lambda>i. 1 * Second * 2 ^ i) [0..<4]"
    unfolding h using f4 by (intro saveHistory_counts) auto
  have u: "[0..<4] = [0, 1, 2, 3]" by (simp add: upt_rec)
  show "saveCalls (snd (etcdSaveWithBackoff en b w)) = saveCalls w + 5"
    unfolding r using c by (simp add: saveCalls_append)
  show "sleeps (snd (etcdSaveWithBackoff en b w)) =
              sleeps w @ [1 * Second, 2 * Second, 4 * Second, 8 * Second]"
    unfolding r using c by (simp add: sleeps_append u)
qed

lemma saveFailsEnv_fails: "saveFails (saveFailsEnv k) c n w = (saveCalls w < k)"
  by (simp add: saveFails_def saveFailsEnv_def)

lemma saveFailsEnv_history:
  "saveCalls w + i \<le> k \<Longrightarrow> saveCalls (saveHistory (saveFailsEnv k) c n d f w i) = saveCalls w + i"
proof (induction i arbitrary: w d)
  case 0
  show ?case by simp
next
  case (Suc i)
  then have "e_ETCDSave (saveFailsEnv k) w (cName c) (cSpec c) n = Some (Error ''etcd snapshot failed'')"
    by (simp add: saveFailsEnv_def)
  moreover have "saveCalls (w @ [EvETCDSave (cName c) n, EvLog Warn ''etcd snapshot failed'', EvSleep d]) + i \<le> k"
    using Suc.prems by (simp add: saveCalls_append)
  ultimately show ?case
    using Suc.IH[of "w @ [EvETCDSave (cName c) n, EvLog Warn ''etcd snapshot failed'', EvSleep d]" "d * f"]
    by (simp add: saveCalls_append)
qed

text \<open>The save fails four times and succeeds at the fifth attempt: 5 calls, Completed is True.\<close>

theorem etcdSaveWithBackoff_retries_witness:
  "e_driverGet (saveFailsEnv 4) [] = None \<and>
   saveCalls (snd (etcdSaveWithBackoff (saveFailsEnv 4) pendingBackup [])) = 5 \<and>
   sleeps (snd (etcdSaveWithBackoff (saveFailsEnv 4) pendingBackup [])) =
     [1000000000, 2000000000, 4000000000, 8000000000] \<and>
   snd (fst (etcdSaveWithBackoff (saveFailsEnv 4) pendingBackup [])) = None \<and>
   IsTrue BackupConditionCompleted (fst (fst (etcdSaveWithBackoff (saveFailsEnv 4) pendingBackup [])))"
proof -
  let ?c = "exampleCluster examplePolicy"
  let ?n = "e_GetBackupFilename (saveFailsEnv 4)
              (Unknown (saveFailsEnv 4) ([] @ [EvKontainerDriverGet]) BackupConditionCompleted pendingBackup)"
  let ?h = "saveHistory (saveFailsEnv 4) ?c ?n (1 * Second) 2
              ([] @ [EvKontainerDriverGet, EvClusterGet (ClusterID (Spec pendingBackup))])"
  have drv: "e_driverGet (saveFailsEnv 4) [] = None"
    by (simp add: saveFailsEnv_def exampleEnv_def)
  have cl: "e_clusterGet (saveFailsEnv 4) ([] @ [EvKontainerDriverGet]) (ClusterID (Spec pendingBackup)) = Inr ?c"
    by (simp add: saveFailsEnv_def exampleEnv_def)
  have c: "saveCalls (?h i) = i" if "i \<le> 4" for i
    using saveFailsEnv_history[of "[EvKontainerDriverGet, EvClusterGet (ClusterID (Spec pendingBackup))]" i 4]
      that by simp
  have f: "(\<forall>i<4. saveFails (saveFailsEnv 4) ?c ?n (?h i)) \<and> \<not> saveFails (saveFailsEnv 4) ?c ?n (?h 4)"
    unfolding saveFailsEnv_fails using c by simp
  have u: "[0..<4] = [0, 1, 2, 3]" by (simp add: upt_rec)
  have k: "(4::nat) < 5" by simp
  note t = etcdSaveWithBackoff_retries[OF drv cl refl refl, THEN conjunct2, THEN conjunct2,
      THEN conjunct1, rule_format, OF k f]
  have "(\<exists>obj. etcdSaveWithBackoff (saveFailsEnv 4) pendingBackup [] =
            ((obj, None), ?h 4 @ [EvETCDSave (cName ?c) ?n]) \<and> IsTrue BackupConditionCompleted obj) \<and>
        saveCalls (snd (etcdSaveWithBackoff (saveFailsEnv 4) pendingBackup [])) = saveCalls [] + 4 + 1 \<and>
        sleeps (snd (etcdSaveWithBackoff (saveFailsEnv 4) pendingBackup [])) =
          sleeps [] @ map (\<lambda>i. 1 * Second * 2 ^ i) [0..<4]"
    by (rule t)
  then show ?thesis
    using drv by (auto simp: u Second_def)
qed

subsection \<open>The removal hook\<close>

lemma s3Steps_append: "s3Steps (w @ v) = s3Steps w @ s3Steps v"
  by (induction w rule: s3Steps.induct) auto

lemma GetS3Client_steps:
  "s3Steps (snd (GetS3Client en (Some s3) t w)) = s3Steps w @ [Attempt]"
  by (simp add: GetS3Client_def Let_def s3Steps_append split: option.splits)

lemma GetS3Client_extends: "\<exists>v. snd (GetS3Client en sbc t w) = w @ v"
  by (simp add: GetS3Client_def Let_def split: option.splits)

lemma deleteS3Snapshot_after_client:
  "S3BackupConfig (BackupConfig (Spec b)) = Some s3 \<Longrightarrow>
   \<exists>v. snd (deleteS3Snapshot en b w) = snd (GetS3Client en (Some s3) defaultTransportTimeout w) @ v \<and>
       s3Steps v = []"
  by (cases "GetS3Client en (Some s3) defaultTransportTimeout w")
     (simp add: deleteS3Snapshot_def Let_def split: sum.splits)

lemma deleteS3Snapshot_steps:
  assumes "S3BackupConfig (BackupConfig (Spec b)) = Some s3"
  shows "s3Steps (snd (deleteS3Snapshot en b w)) = s3Steps w @ [Attempt]"
proof -
  obtain v where "snd (deleteS3Snapshot en b w) = snd (GetS3Client en (Some s3) defaultTransportTimeout w) @ v"
    "s3Steps v = []"
    using deleteS3Snapshot_after_client[OF assms] by blast
  then show ?thesis by (simp add: s3Steps_append GetS3Client_steps)
qed

lemma deleteS3Snapshot_extends: "\<exists>v. snd (deleteS3Snapshot en b w) = w @ v"
proof (cases "S3BackupConfig (BackupConfig (Spec b))")
  case None
  then show ?thesis by (simp add: deleteS3Snapshot_def)
next
  case (Some s3)
  obtain v where "snd (deleteS3Snapshot en b w) = snd (GetS3Client en (Some s3) defaultTransportTimeout w) @ v"
    using deleteS3Snapshot_after_client[OF Some] by blast
  moreover obtain u where "snd (GetS3Client en (Some s3) defaultTransportTimeout w) = w @ u"
    using GetS3Client_extends by blast
  ultimately show ?thesis by simp
qed

lemma removeS3Loop_step_ok:
  "deleteS3Snapshot en b w = (None, w1) \<Longrightarrow> removeS3Loop en b (Suc n) delErr w = (None, w1)"
  by simp

lemma removeS3Loop_step_retry:
  "deleteS3Snapshot en b w = (Some e, w1) \<Longrightarrow>
   removeS3Loop en b (Suc n) delErr w =
     removeS3Loop en b n (Some e)
       (w1 @ [EvLog Warn (''failed to delete backup from s3: '' @ errorString e), EvSleep (5 * Second)])"
  by simp

lemma removeS3Loop_extends: "\<exists>v. snd (removeS3Loop en b n delErr w) = w @ v"
proof (induction n arbitrary: delErr w)
  case 0
  show ?case by simp
next
  case (Suc n)
  obtain r w1 where d: "deleteS3Snapshot en b w = (r, w1)" by (cases "deleteS3Snapshot en b w")
  obtain u where u: "w1 = w @ u"
    using deleteS3Snapshot_extends[of en b w] d by auto
  show ?case
  proof (cases r)
    case None
    with d u show ?thesis by (simp add: removeS3Loop_step_ok del: removeS3Loop.simps)
  next
    case (Some e)
    let ?w = "w1 @ [EvLog Warn (''failed to delete backup from s3: '' @ errorString e), EvSleep (5 * Second)]"
    obtain v where "snd (removeS3Loop en b n (Some e) ?w) = ?w @ v"
      using Suc.IH by blast
    with d Some u show ?thesis
      by (simp add: removeS3Loop_step_retry del: removeS3Loop.simps)
  qed
qed

lemma removeS3Loop_steps:
  assumes "S3BackupConfig (BackupConfig (Spec b)) = Some s3"
  shows "\<exists>j. (j < n \<and> s3Steps (snd (removeS3Loop en b n delErr w)) =
               s3Steps w @ concat (replicate j [Attempt, Pause (5 * Second)]) @ [Attempt]) \<or>
             (j = n \<and> s3Steps (snd (removeS3Loop en b n delErr w)) =
               s3Steps w @ concat (replicate j [Attempt, Pause (5 * Second)]))"
proof (induction n arbitrary: delErr w)
  case 0
  show ?case by simp
next
  case (Suc n)
  obtain r w1 where d: "deleteS3Snapshot en b w = (r, w1)" by (cases "deleteS3Snapshot en b w")
  have s: "s3Steps w1 = s3Steps w @ [Attempt]"
    using deleteS3Snapshot_steps[OF assms, of en w] d by simp
  show ?case
  proof (cases r)
    case None
    with d s show ?thesis
      by (intro exI[of _ 0]) (simp add: removeS3Loop_step_ok del: removeS3Loop.simps)
  next
    case (Some e)
    let ?w = "w1 @ [EvLog Warn (''failed to delete backup from s3: '' @ errorString e), EvSleep (5 * Second)]"
    have l: "removeS3Loop en b (Suc n) delErr w = removeS3Loop en b n (Some e) ?w"
      using d Some by (simp add: removeS3Loop_step_retry del: removeS3Loop.simps)
    have s': "s3Steps ?w = s3Steps w @ [Attempt, Pause (5 * Second)]"
      using s by (simp add: s3Steps_append)
    from Suc.IH[of "Some e" ?w] obtain j where
      "(j < n \<and> s3Steps (snd (removeS3Loop en b n (Some e) ?w)) =
               s3Steps ?w @ concat (replicate j [Attempt, Pause (5 * Second)]) @ [Attempt]) \<or>
       (j = n \<and> s3Steps (snd (removeS3Loop en b n (Some e) ?w)) =
               s3Steps ?w @ concat (replicate j [Attempt, Pause (5 * Second)]))" by blast
    then show ?thesis
      unfolding l s' by (intro exI[of _ "Suc j"]) auto
  qed
qed

lemma removeS3Loop_3:
  assumes "S3BackupConfig (BackupConfig (Spec b)) = Some s3"
  shows "\<exists>tail. s3Steps (snd (removeS3Loop en b 3 delErr w)) = s3Steps w @ tail \<and>
     tail \<in> set [[Attempt],
                  [Attempt, Pause (5 * Second), Attempt],
                  [Attempt, Pause (5 * Second), Attempt, Pause (5 * Second), Attempt],
                  [Attempt, Pause (5 * Second), Attempt, Pause (5 * Second), Attempt, Pause (5 * Second)]]"
proof -
  obtain j where j: "(j < 3 \<and> s3Steps (snd (removeS3Loop en b 3 delErr w)) =
               s3Steps w @ concat (replicate j [Attempt, Pause (5 * Second)]) @ [Attempt]) \<or>
             (j = 3 \<and> s3Steps (snd (removeS3Loop en b 3 delErr w)) =
               s3Steps w @ concat (replicate j [Attempt, Pause (5 * Second)]))"
    using removeS3Loop_steps[OF assms] by blast
  then consider "j = 0" | "j = Suc 0" | "j = Suc (Suc 0)" | "j = 3" by linarith
  then show ?thesis
  proof cases
    case 1
    with j show ?thesis by (intro exI[of _ "[Attempt]"]) simp
  next
    case 2
    with j show ?thesis by (intro exI[of _ "[Attempt, Pause (5 * Second), Attempt]"]) simp
  next
    case 3
    with j show ?thesis
      by (intro exI[of _ "[Attempt, Pause (5 * Second), Attempt, Pause (5 * Second), Attempt]"]) simp
  next
    case 4
    have "replicate 3 [Attempt, Pause (5 * Second)] = replicate (Suc (Suc (Suc 0))) [Attempt, Pause (5 * Second)]"
      by (simp only: numeral_3_eq_3)
    with 4 j show ?thesis
      by (intro exI[of _ "[Attempt, Pause (5 * Second), Attempt, Pause (5 * Second), Attempt, Pause (5 * Second)]"])
         simp
  qed
qed

lemma Remove_phases:
  assumes "etcdRemoveSnapshotWithBackoff en b (w @ [deletingLog b]) = (err, w1)"
      and "w2 = (case err of
                   Some e \<Rightarrow> w1 @ [EvLog Warn (''giving up on deleting backup ['' @ Name b @ '']: '' @ errorString e)]
                 | None \<Rightarrow> w1)"
  shows "fst (Remove en b w) = (b, None)"
    and "S3BackupConfig (BackupConfig (Spec b)) = None \<Longrightarrow> snd (Remove en b w) = w2"
    and "S3BackupConfig (BackupConfig (Spec b)) = Some s3 \<Longrightarrow>
         \<exists>v. snd (Remove en b w) = snd (removeS3Loop en b 3 None w2) @ v \<and> s3Steps v = []"
proof -
  show "fst (Remove en b w) = (b, None)"
    by (simp add: Remove_def Let_def split: prod.splits)
  show "snd (Remove en b w) = w2" if "S3BackupConfig (BackupConfig (Spec b)) = None"
    using that assms unfolding Remove_def Let_def deletingLog_def[symmetric] by simp
  show "\<exists>v. snd (Remove en b w) = snd (removeS3Loop en b 3 None w2) @ v \<and> s3Steps v = []"
    if "S3BackupConfig (BackupConfig (Spec b)) = Some s3"
  proof -
    obtain delErr w3 where l: "removeS3Loop en b 3 None w2 = (delErr, w3)"
      by (cases "removeS3Loop en b 3 None w2")
    show ?thesis
      using that assms l unfolding Remove_def Let_def deletingLog_def[symmetric]
      by (cases delErr) (simp_all del: removeS3Loop.simps)
  qed
qed

text \<open>
  C7. The removal hook returns the object and no error, whatever the collaborators answer.
  When the removal of the snapshot ends with an error (the retries are used up, or the
  driver or the cluster is not found) a warning is logged and the hook goes on. The remote
  deletion is attempted only when the backup has a remote target, at most 3 times, and every
  failed attempt is followed by a pause of 5 seconds; the hook returns no error also after
  the third failure.
\<close>

theorem Remove_never_fails:
  "fst (Remove en b w) = (b, None) \<and>
   (\<forall>e. fst (etcdRemoveSnapshotWithBackoff en b (w @ [deletingLog b])) = Some e \<longrightarrow>
        EvLog Warn (''giving up on deleting backup ['' @ Name b @ '']: '' @ errorString e)
          \<in> set (snd (Remove en b w))) \<and>
   (\<exists>tail. s3Steps (snd (Remove en b w)) =
             s3Steps (snd (etcdRemoveSnapshotWithBackoff en b (w @ [deletingLog b]))) @ tail \<and>
           tail \<in> set [[],
                  [Attempt],
                  [Attempt, Pause (5 * Second), Attempt],
                  [Attempt, Pause (5 * Second), Attempt, Pause (5 * Second), Attempt],
                  [Attempt, Pause (5 * Second), Attempt, Pause (5 * Second), Attempt, Pause (5 * Second)]] \<and>
           (S3BackupConfig (BackupConfig (Spec b)) = None) = (tail = []))"
proof -
  obtain err w1 where r: "etcdRemoveSnapshotWithBackoff en b (w @ [deletingLog b]) = (err, w1)"
    by (cases "etcdRemoveSnapshotWithBackoff en b (w @ [deletingLog b])")
  define w2 where "w2 = (case err of
       Some e \<Rightarrow> w1 @ [EvLog Warn (''giving up on deleting backup ['' @ Name b @ '']: '' @ errorString e)]
     | None \<Rightarrow> w1)"
  note ph = Remove_phases[OF r w2_def]
  have s2: "s3Steps w2 = s3Steps w1"
    by (simp add: w2_def s3Steps_append split: option.splits)
  have a: "fst (Remove en b w) = (b, None)" by (rule ph(1))
  have b: "EvLog Warn (''giving up on deleting backup ['' @ Name b @ '']: '' @ errorString e)
          \<in> set (snd (Remove en b w))" if "err = Some e" for e
  proof (cases "S3BackupConfig (BackupConfig (Spec b))")
    case None
    with ph(2) that show ?thesis by (simp add: w2_def)
  next
    case (Some s3)
    obtain v where "snd (Remove en b w) = snd (removeS3Loop en b 3 None w2) @ v"
      using ph(3)[OF Some] by blast
    moreover obtain u where "snd (removeS3Loop en b 3 None w2) = w2 @ u"
      using removeS3Loop_extends by blast
    ultimately show ?thesis using that by (simp add: w2_def)
  qed
  have c: "\<exists>tail. s3Steps (snd (Remove en b w)) = s3Steps w1 @ tail \<and>
           tail \<in> set [[],
                  [Attempt],
                  [Attempt, Pause (5 * Second), Attempt],
                  [Attempt, Pause (5 * Second), Attempt, Pause (5 * Second), Attempt],
                  [Attempt, Pause (5 * Second), Attempt, Pause (5 * Second), Attempt, Pause (5 * Second)]] \<and>
           (S3BackupConfig (BackupConfig (Spec b)) = None) = (tail = [])"
  proof (cases "S3BackupConfig (BackupConfig (Spec b))")
    case None
    with ph(2) s2 show ?thesis by (intro exI[of _ "[]"]) simp
  next
    case (Some s3)
    obtain v where v: "snd (Remove en b w) = snd (removeS3Loop en b 3 None w2) @ v" "s3Steps v = []"
      using ph(3)[OF Some] by blast
    obtain tail where t: "s3Steps (snd (removeS3Loop en b 3 None w2)) = s3Steps w2 @ tail"
      "tail \<in> set [[Attempt],
                  [Attempt, Pause (5 * Second), Attempt],
                  [Attempt, Pause (5 * Second), Attempt, Pause (5 * Second), Attempt],
                  [Attempt, Pause (5 * Second), Attempt, Pause (5 * Second), Attempt, Pause (5 * Second)]]"
      using removeS3Loop_3[OF Some] by blast
    have "s3Steps (snd (Remove en b w)) = s3Steps w1 @ tail"
      unfolding v(1) by (simp add: s3Steps_append t(1) s2 v(2))
    with t(2) Some show ?thesis by (intro exI[of _ tail]) auto
  qed
  show ?thesis
    using a b c unfolding r by simp
qed

lemma removeFailsEnv_snapshot:
  "etcdRemoveSnapshotWithBackoff removeFailsEnv remoteBackup w =
     (Some ErrWaitTimeout,
      w @ [EvKontainerDriverGet, EvClusterGet ''c-x7k2p'',
       EvETCDRemoveSnapshot ''c-x7k2p'' ''c-x7k2p-rl-b5'', EvLog Warn ''etcd remove failed'', EvSleep 1000000000,
       EvETCDRemoveSnapshot ''c-x7k2p'' ''c-x7k2p-rl-b5'', EvLog Warn ''etcd remove failed'', EvSleep 2000000000,
       EvETCDRemoveSnapshot ''c-x7k2p'' ''c-x7k2p-rl-b5'', EvLog Warn ''etcd remove failed'', EvSleep 4000000000,
       EvETCDRemoveSnapshot ''c-x7k2p'' ''c-x7k2p-rl-b5'', EvLog Warn ''etcd remove failed'', EvSleep 8000000000,
       EvETCDRemoveSnapshot ''c-x7k2p'' ''c-x7k2p-rl-b5'', EvLog Warn ''etcd remove failed''])"
proof -
  have n: "(5::nat) = Suc (Suc (Suc (Suc (Suc 0))))" by simp
  show ?thesis
    by (simp add: etcdRemoveSnapshotWithBackoff_def ExponentialBackoff_def getBackoff_def n
        removeCondition_def removeFailsEnv_def exampleEnv_def remoteBackup_def pendingBackup_def
        exampleBackup_def exampleCluster_def Millisecond_def)
qed

lemma removeFailsEnv_delete:
  "deleteS3Snapshot removeFailsEnv remoteBackup w =
     (Some (Error ''access denied''),
      w @ [EvMinioNew ''s3.example.com''
             \<lparr>Creds = NewStatic ''AKIAEXAMPLE'' ''secret'' [], oRegion = ''us-east-1'', Secure = True,
              BucketLookup = BucketLookupAuto\<rparr>,
           EvBucketExists ''backups'',
           EvLog Warn (''Could not get filename from [c-x7k2p-rl-b5_2019-06-01T06-00-00Z.zip]: not a URL. Using c-x7k2p-rl-b5 as fallback''),
           EvRemoveObject ''backups'' ''etcd/c-x7k2p-rl-b5''])"
  by (simp add: deleteS3Snapshot_def GetS3Client_def removeFailsEnv_def exampleEnv_def remoteBackup_def
      pendingBackup_def exampleBackup_def exampleS3_def examplePolicy_def getBucketLookupType_def Let_def)

lemma removeFailsEnv_loop:
  "s3Steps (snd (removeS3Loop removeFailsEnv remoteBackup 3 None w)) =
     s3Steps w @ [Attempt, Pause 5000000000, Attempt, Pause 5000000000, Attempt, Pause 5000000000]"
proof -
  have n: "(3::nat) = Suc (Suc (Suc 0))" by simp
  show ?thesis
    by (simp add: n removeFailsEnv_delete Second_def s3Steps_append)
qed

text \<open>
  Nothing can be removed: five attempts at the snapshot with pauses of 1, 2, 4 and 8 seconds,
  the warning, three attempts at the remote artifact with pauses of 5 seconds, and no error.
\<close>

theorem Remove_never_fails_witness:
  "fst (Remove removeFailsEnv remoteBackup []) = (remoteBackup, None) \<and>
   fst (etcdRemoveSnapshotWithBackoff removeFailsEnv remoteBackup ([] @ [deletingLog remoteBackup])) =
     Some ErrWaitTimeout \<and>
   EvLog Warn (''giving up on deleting backup ['' @ Name remoteBackup @ '']: '' @ errorString ErrWaitTimeout)
     \<in> set (snd (Remove removeFailsEnv remoteBackup [])) \<and>
   S3BackupConfig (BackupConfig (Spec remoteBackup)) \<noteq> None \<and>
   s3Steps (snd (Remove removeFailsEnv remoteBackup [])) =
     [Pause 1000000000, Pause 2000000000, Pause 4000000000, Pause 8000000000,
      Attempt, Pause 5000000000, Attempt, Pause 5000000000, Attempt, Pause 5000000000]"
proof -
  have r: "fst (etcdRemoveSnapshotWithBackoff removeFailsEnv remoteBackup ([] @ [deletingLog remoteBackup])) =
     Some ErrWaitTimeout"
    by (simp add: removeFailsEnv_snapshot)
  obtain s3 where c: "S3BackupConfig (BackupConfig (Spec remoteBackup)) = Some s3"
    by (simp add: remoteBackup_def)
  obtain v where v: "snd (Remove removeFailsEnv remoteBackup []) =
      snd (removeS3Loop removeFailsEnv remoteBackup 3 None
        (snd (etcdRemoveSnapshotWithBackoff removeFailsEnv remoteBackup ([] @ [deletingLog remoteBackup])) @
         [EvLog Warn (''giving up on deleting backup ['' @ Name remoteBackup @ '']: '' @ errorString ErrWaitTimeout)])) @ v"
     "s3Steps v = []"
    using Remove_phases(3)[OF _ refl c, of removeFailsEnv "[]" "Some ErrWaitTimeout"]
    by (auto simp: removeFailsEnv_snapshot)
  have s: "s3Steps (snd (Remove removeFailsEnv remoteBackup [])) =
     [Pause 1000000000, Pause 2000000000, Pause 4000000000, Pause 8000000000,
      Attempt, Pause 5000000000, Attempt, Pause 5000000000, Attempt, Pause 5000000000]"
    unfolding v(1)
    by (simp add: s3Steps_append v(2) removeFailsEnv_loop removeFailsEnv_snapshot deletingLog_def)
  show ?thesis
    using Remove_never_fails[of removeFailsEnv remoteBackup "[]"] r c s by simp
qed

subsection \<open>When a backup is due\<close>


















subsection \<open>The create hook on a named backup\<close>









end
